theory Spec2Isabelle
  imports Main "HOL-Library.Multiset" "HOL-Library.AList"
begin

section \<open>Data model (models/schema.model.ts)\<close>

text \<open>
  The enum \<open>DataType\<close>, the interfaces \<open>ColumnSchema\<close> and \<open>TableSchema\<close>.
  A JavaScript string is modelled as a \<open>string\<close>: a list of code units below 256
  (ASCII and Latin-1), which is what the character classes below are written for.
\<close>

text \<open>\<open>INT\<close> is written \<open>INT_T\<close>: the plain name is taken by the syntax of intersections.\<close>

datatype DataType = INT_T | BIGINT | FLOAT | VARCHAR | TEXT | DATE | TIMESTAMP | BOOLEAN

record ColumnSchema =
  name :: string
  type :: DataType
  maxLength :: "nat option"

type_synonym TableSchema = "ColumnSchema list"

section \<open>ParserService: merging of types\<close>

text \<open>The table \<open>priority\<close> local to \<open>mergeDataTypes\<close>.\<close>

fun priority :: "DataType \<Rightarrow> nat" where
  "priority TEXT = 8"
| "priority VARCHAR = 7"
| "priority FLOAT = 6"
| "priority BIGINT = 5"
| "priority INT_T = 4"
| "priority TIMESTAMP = 3"
| "priority DATE = 2"
| "priority BOOLEAN = 1"

definition mergeDataTypes :: "DataType \<Rightarrow> DataType \<Rightarrow> DataType" where
  "mergeDataTypes type1 type2 =
     (if type1 = type2 then type1
      else if priority type1 > priority type2 then type1 else type2)"

section \<open>ParserService: character classes and string helpers\<close>

definition code :: "char \<Rightarrow> nat" where
  "code c = of_char c"

text \<open>The class \<open>\s\<close> of a JavaScript regular expression, which is also what
  \<open>String.prototype.trim\<close> strips: tab, LF, VT, FF, CR, space and the no-break space.\<close>

definition is_space :: "char \<Rightarrow> bool" where
  "is_space c = (code c \<in> {9, 10, 11, 12, 13, 32, 160})"

text \<open>The class \<open>\d\<close>: the ten ASCII digits.\<close>

definition is_digit :: "char \<Rightarrow> bool" where
  "is_digit c = (48 \<le> code c \<and> code c \<le> 57)"

text \<open>The class \<open>[a-z0-9_]\<close>, whose complement \<open>sanitizeColumnName\<close> deletes.\<close>

definition is_ident :: "char \<Rightarrow> bool" where
  "is_ident c = ((97 \<le> code c \<and> code c \<le> 122) \<or> is_digit c \<or> c = CHR ''_'')"

text \<open>\<open>toLowerCase\<close> on one code unit: A-Z, and the Latin-1 capitals
  (0xC0-0xDE without the multiplication sign 0xD7), move up by 32.\<close>

definition lower_char :: "char \<Rightarrow> char" where
  "lower_char c =
     (if (65 \<le> code c \<and> code c \<le> 90) \<or> (192 \<le> code c \<and> code c \<le> 222 \<and> code c \<noteq> 215)
      then char_of (code c + 32) else c)"

definition toLowerCase :: "string \<Rightarrow> string" where
  "toLowerCase s = map lower_char s"

definition trim :: "string \<Rightarrow> string" where
  "trim s = rev (dropWhile is_space (rev (dropWhile is_space s)))"

text \<open>\<open>.replace(/\s+/g, r)\<close>: every maximal run of white space becomes \<open>r\<close>.\<close>

function replaceSpaceRuns :: "string \<Rightarrow> string \<Rightarrow> string" where
  "replaceSpaceRuns r [] = []"
| "replaceSpaceRuns r (c # cs) =
     (if is_space c then r @ replaceSpaceRuns r (dropWhile is_space cs)
      else c # replaceSpaceRuns r cs)"
  by pat_completeness auto
termination
  by (relation "measure (\<lambda>(r, s). length s)")
     (auto simp: le_imp_less_Suc length_dropWhile_le)

text \<open>\<open>.replace(/^(\d)/, "col_$1")\<close>.\<close>

definition prefixLeadingDigit :: "string \<Rightarrow> string" where
  "prefixLeadingDigit s =
     (case s of [] \<Rightarrow> [] | c # cs \<Rightarrow> if is_digit c then ''col_'' @ s else s)"

text \<open>
  \<^verbatim>\<open>
  private sanitizeColumnName(name: string): string {
    return name.trim().toLowerCase().replace(/\s+/g, "_")
      .replace(/[^a-z0-9_]/g, "").replace(/^(\d)/, "col_$1").substring(0, 64);
  }
  \<close>
\<close>

definition sanitizeColumnName :: "string \<Rightarrow> string" where
  "sanitizeColumnName nm =
     take 64 (prefixLeadingDigit (filter is_ident
       (replaceSpaceRuns ''_'' (toLowerCase (trim nm)))))"

section \<open>ParserService: cleaning and classifying a cell\<close>

text \<open>\<open>.replace(/\[.*?\]/g, "")\<close>: from each opening bracket up to the first closing
  bracket after it. The dot does not match a line terminator; \<open>cleanValue\<close> has turned
  every one of them into a space before this replacement runs.\<close>

function removeBrackets :: "string \<Rightarrow> string" where
  "removeBrackets [] = []"
| "removeBrackets (c # cs) =
     (if c = CHR ''['' \<and> CHR '']'' \<in> set cs
      then removeBrackets (tl (dropWhile (\<lambda>x. x \<noteq> CHR '']'') cs))
      else c # removeBrackets cs)"
  by pat_completeness auto
termination
  by (relation "measure length")
     (auto simp: le_imp_less_Suc length_dropWhile_le less_Suc_eq_le diff_le_mono2
           intro: le_trans [OF diff_le_self length_dropWhile_le])

text \<open>
  \<^verbatim>\<open>
  private cleanValue(value: string): string {
    return value.replace(/\s+/g, " ").replace(/\[.*?\]/g, "").trim();
  }
  \<close>
\<close>

definition cleanValue :: "string \<Rightarrow> string" where
  "cleanValue v = trim (removeBrackets (replaceSpaceRuns '' '' v))"

definition removeCommas :: "string \<Rightarrow> string" where
  "removeCommas s = filter (\<lambda>c. c \<noteq> CHR '','') s"

definition all_digits :: "string \<Rightarrow> bool" where
  "all_digits s = (s \<noteq> [] \<and> list_all is_digit s)"

text \<open>\<open>/^-?\d+$/\<close>\<close>

definition isIntegerShaped :: "string \<Rightarrow> bool" where
  "isIntegerShaped s =
     (case s of [] \<Rightarrow> False
      | c # cs \<Rightarrow> if c = CHR ''-'' then all_digits cs else all_digits s)"

text \<open>\<open>/^-?\d+\.\d+$/\<close>\<close>

definition isFloatShaped :: "string \<Rightarrow> bool" where
  "isFloatShaped s =
     (let body = (case s of [] \<Rightarrow> [] | c # cs \<Rightarrow> if c = CHR ''-'' then cs else s);
          whole = takeWhile is_digit body;
          rest = dropWhile is_digit body
      in whole \<noteq> [] \<and> (case rest of [] \<Rightarrow> False
           | d # frac \<Rightarrow> d = CHR ''.'' \<and> all_digits frac))"

text \<open>\<open>/^(true|false|yes|no)$/i\<close>; the flag \<open>i\<close> folds the ASCII letters only.\<close>

definition ascii_lower :: "char \<Rightarrow> char" where
  "ascii_lower c = (if 65 \<le> code c \<and> code c \<le> 90 then char_of (code c + 32) else c)"

definition isBooleanWord :: "string \<Rightarrow> bool" where
  "isBooleanWord s = (map ascii_lower s \<in> set [''true'', ''false'', ''yes'', ''no''])"

text \<open>A pattern of fixed length: \<open>D\<close> is \<open>\d\<close>, \<open>L c\<close> the character \<open>c\<close>,
  \<open>TS\<close> the class \<open>[T\s]\<close>. \<open>matchesPrefix\<close> is a match anchored at the start only.\<close>

datatype pat = D | L char | TS

fun matchesPrefix :: "pat list \<Rightarrow> string \<Rightarrow> bool" where
  "matchesPrefix [] s = True"
| "matchesPrefix (p # ps) [] = False"
| "matchesPrefix (p # ps) (c # cs) =
     ((case p of D \<Rightarrow> is_digit c | L x \<Rightarrow> c = x | TS \<Rightarrow> c = CHR ''T'' \<or> is_space c)
      \<and> matchesPrefix ps cs)"

text \<open>\<open>/^\d{4}-\d{2}-\d{2}$/\<close>\<close>

definition isIsoDate :: "string \<Rightarrow> bool" where
  "isIsoDate s =
     (length s = 10 \<and>
      matchesPrefix [D, D, D, D, L CHR ''-'', D, D, L CHR ''-'', D, D] s)"

text \<open>\<open>/^\d{4}-\d{2}-\d{2}[T\s]\d{2}:\d{2}(:\d{2})?/\<close>: not anchored at the end, so the
  optional seconds never decide the match.\<close>

definition isTimestamp :: "string \<Rightarrow> bool" where
  "isTimestamp s =
     matchesPrefix [D, D, D, D, L CHR ''-'', D, D, L CHR ''-'', D, D, TS,
                    D, D, L CHR '':'', D, D] s"

text \<open>\<open>/^\d{1,2}[\/\-]\d{1,2}[\/\-]\d{2,4}$/\<close>: three runs of digits, of lengths 1-2, 1-2
  and 2-4, separated by a slash or a dash.\<close>

definition isDateSep :: "char \<Rightarrow> bool" where
  "isDateSep c = (c = CHR ''/'' \<or> c = CHR ''-'')"

definition isCommonDate :: "string \<Rightarrow> bool" where
  "isCommonDate s =
     (let a = takeWhile is_digit s; r1 = dropWhile is_digit s
      in length a \<in> {1, 2} \<and> (case r1 of [] \<Rightarrow> False
         | s1 # t1 \<Rightarrow> isDateSep s1 \<and>
             (let b = takeWhile is_digit t1; r2 = dropWhile is_digit t1
              in length b \<in> {1, 2} \<and> (case r2 of [] \<Rightarrow> False
                 | s2 # t2 \<Rightarrow> isDateSep s2 \<and> list_all is_digit t2 \<and>
                     length t2 \<in> {2, 3, 4}))))"

text \<open>
  \<open>parseInt(s)\<close> without a radix: leading white space and a sign are skipped, the prefix
  \<open>0x\<close> selects base 16, and the longest run of digits is read; \<open>None\<close> is \<open>NaN\<close>.
  The result is the exact integer. JavaScript rounds it to the nearest double, which
  keeps every integer up to \<open>2^53\<close> and keeps the order against the two 32-bit bounds
  that \<open>inferDataType\<close> compares with.
\<close>

definition digitValue :: "char \<Rightarrow> int" where
  "digitValue c =
     (if is_digit c then int (code c) - 48
      else if 97 \<le> code c \<and> code c \<le> 102 then int (code c) - 87
      else int (code c) - 55)"

definition isRadixDigit :: "int \<Rightarrow> char \<Rightarrow> bool" where
  "isRadixDigit radix c =
     (is_digit c \<or> (radix = 16 \<and>
        ((97 \<le> code c \<and> code c \<le> 102) \<or> (65 \<le> code c \<and> code c \<le> 70))))"

definition digitsValue :: "int \<Rightarrow> string \<Rightarrow> int" where
  "digitsValue radix ds = foldl (\<lambda>acc c. acc * radix + digitValue c) 0 ds"

definition parseInt :: "string \<Rightarrow> int option" where
  "parseInt s =
     (let t = dropWhile is_space s;
          neg = (t \<noteq> [] \<and> hd t = CHR ''-'');
          u = (if t \<noteq> [] \<and> (hd t = CHR ''-'' \<or> hd t = CHR ''+'') then tl t else t);
          hex = (take 2 u = ''0x'' \<or> take 2 u = ''0X'');
          radix = (if hex then 16 else 10);
          v = (if hex then drop 2 u else u);
          ds = takeWhile (isRadixDigit radix) v
      in if ds = [] then None
         else Some ((if neg then - 1 else 1) * digitsValue radix ds))"

text \<open>The integer that a string of the shape \<open>-?\d+\<close> denotes in base ten.\<close>

definition integerValue :: "string \<Rightarrow> int" where
  "integerValue s = (case s of [] \<Rightarrow> 0 | c # cs \<Rightarrow>
      if c = CHR ''-'' then - digitsValue 10 cs else digitsValue 10 s)"

text \<open>
  \<^verbatim>\<open>
  private inferDataType(value: string): DataType {
    const trimmed = value.trim();
    if (!trimmed || trimmed === "" || trimmed === "-" || trimmed === "N/A") return DataType.VARCHAR;
    if (/^(true|false|yes|no)$/i.test(trimmed)) return DataType.BOOLEAN;
    if (/^-?\d+$/.test(trimmed.replace(/,/g, ""))) {
      const num = parseInt(trimmed.replace(/,/g, ""));
      if (num > 2147483647 || num < -2147483648) return DataType.BIGINT;
      return DataType.INT;
    }
    if (/^-?\d+\.\d+$/.test(trimmed.replace(/,/g, ""))) return DataType.FLOAT;
    if (/^\d{4}-\d{2}-\d{2}$/.test(trimmed)) return DataType.DATE;
    if (/^\d{4}-\d{2}-\d{2}[T\s]\d{2}:\d{2}(:\d{2})?/.test(trimmed)) return DataType.TIMESTAMP;
    if (/^\d{1,2}[\/\-]\d{1,2}[\/\-]\d{2,4}$/.test(trimmed)) return DataType.DATE;
    if (trimmed.length > 255) return DataType.TEXT;
    return DataType.VARCHAR;
  }
  \<close>
  A comparison with \<open>NaN\<close> is false, so a \<open>NaN\<close> from \<open>parseInt\<close> would give \<open>INT\<close>.
\<close>

definition inferDataType :: "string \<Rightarrow> DataType" where
  "inferDataType v =
     (let trimmed = trim v in
      if trimmed = [] \<or> trimmed = ''-'' \<or> trimmed = ''N/A'' then VARCHAR
      else if isBooleanWord trimmed then BOOLEAN
      else if isIntegerShaped (removeCommas trimmed) then
        (case parseInt (removeCommas trimmed) of
           None \<Rightarrow> INT_T
         | Some num \<Rightarrow> if num > 2147483647 \<or> num < - 2147483648 then BIGINT else INT_T)
      else if isFloatShaped (removeCommas trimmed) then FLOAT
      else if isIsoDate trimmed then DATE
      else if isTimestamp trimmed then TIMESTAMP
      else if isCommonDate trimmed then DATE
      else if length trimmed > 255 then TEXT
      else VARCHAR)"

section \<open>ParserService: converting a cell\<close>

text \<open>
  The values of a \<open>TableRow\<close> (\<open>[key: string]: any\<close>). \<open>JNumber\<close> is an integral number
  that a double holds exactly (\<open>0\<close> and \<open>-0\<close> are not told apart) and \<open>JNaN\<close> is
  \<open>NaN\<close>. \<open>JParseFloat s\<close> and \<open>JParseInt s\<close> stand for the numbers \<open>parseFloat(s)\<close>
  and \<open>parseInt(s)\<close>, kept symbolic. \<open>JInherited k\<close> is what reading the property \<open>k\<close>
  yields on an object that has no such property of its own and finds it on
  \<open>Object.prototype\<close>: a built-in function, or \<open>Object.prototype\<close> itself for
  \<open>__proto__\<close>.

  A \<open>TableRow\<close> is a plain object: the list of its own enumerable properties, in the
  order in which \<open>Object.keys\<close> lists them (integer-like keys first, in ascending order,
  then the other keys in the order of their creation), each key once. \<open>AList.update\<close>
  assigns a property the way \<open>row[k] = v\<close> does for a key that is not integer-like (a
  known key keeps its place, a new one comes last).
\<close>

datatype JsValue =
    JUndefined | JNull | JNumber int | JNaN | JParseFloat string | JParseInt string
  | JString string | JBoolean bool | JInherited string

type_synonym TableRow = "(string \<times> JsValue) list"

record ParsedTable =
  schema :: TableSchema
  rows :: "TableRow list"

text \<open>
  \<^verbatim>\<open>
  private convertValue(value: string, dataType: DataType): any {
    const cleaned = this.cleanValue(value);
    if (!cleaned || cleaned === "" || cleaned === "-" || cleaned === "N/A") return null;
    switch (dataType) {
      case DataType.INT: case DataType.BIGINT: return parseInt(cleaned.replace(/,/g, ""));
      case DataType.FLOAT: return parseFloat(cleaned.replace(/,/g, ""));
      case DataType.BOOLEAN: return /^(true|yes)$/i.test(cleaned);
      default: return cleaned;
    }
  }
  \<close>
\<close>

text \<open>
  The number that \<open>parseInt(s)\<close> returns: \<open>NaN\<close>, or the double nearest to the integer
  read. Up to \<open>2^53\<close> that is the integer itself; beyond, the number is kept symbolic.
\<close>

definition numberOf :: "string \<Rightarrow> JsValue" where
  "numberOf s =
     (case parseInt s of
        None \<Rightarrow> JNaN
      | Some n \<Rightarrow> if abs n \<le> 9007199254740992 then JNumber n else JParseInt s)"

definition convertValue :: "string \<Rightarrow> DataType \<Rightarrow> JsValue" where
  "convertValue v dataType =
     (let cleaned = cleanValue v in
      if cleaned = [] \<or> cleaned = ''-'' \<or> cleaned = ''N/A'' then JNull
      else case dataType of
          INT_T \<Rightarrow> numberOf (removeCommas cleaned)
        | BIGINT \<Rightarrow> numberOf (removeCommas cleaned)
        | FLOAT \<Rightarrow> JParseFloat (removeCommas cleaned)
        | BOOLEAN \<Rightarrow> JBoolean (map ascii_lower cleaned \<in> set [''true'', ''yes''])
        | _ \<Rightarrow> JString cleaned)"

section \<open>ParserService: inferSchema and parseTable\<close>

text \<open>\<open>xs[i]\<close> on an array: \<open>None\<close> is \<open>undefined\<close>, read past the end.\<close>

definition at :: "'a list \<Rightarrow> nat \<Rightarrow> 'a option" where
  "at xs i = (if i < length xs then Some (xs ! i) else None)"

text \<open>
  The body of \<open>rows.forEach\<close> in \<open>inferSchema\<close>, on the pair (inferredType, maxLength):
  \<^verbatim>\<open>
      if (row[colIndex]) {
        const value = this.cleanValue(row[colIndex]);
        maxLength = Math.max(maxLength, value.length);
        const valueType = this.inferDataType(value);
        inferredType = this.mergeDataTypes(inferredType, valueType);
      }
  \<close>
  An absent cell and the empty string are both falsy.
\<close>

definition scanCell :: "nat \<Rightarrow> string list \<Rightarrow> DataType \<times> nat \<Rightarrow> DataType \<times> nat" where
  "scanCell colIndex rw acc =
     (case at rw colIndex of
        None \<Rightarrow> acc
      | Some cell \<Rightarrow>
          if cell = [] then acc
          else (let v = cleanValue cell
                in (mergeDataTypes (fst acc) (inferDataType v), max (snd acc) (length v))))"

text \<open>The column of \<open>inferSchema\<close> for one header: the scan starts from
  \<open>inferredType = DataType.VARCHAR\<close> and \<open>maxLength = 0\<close>.\<close>

definition inferColumn :: "string list list \<Rightarrow> nat \<Rightarrow> string \<Rightarrow> ColumnSchema" where
  "inferColumn rws colIndex header =
     (let acc = fold (scanCell colIndex) rws (VARCHAR, 0)
      in \<lparr> name = sanitizeColumnName header,
           type = fst acc,
           maxLength = (if fst acc = VARCHAR then Some (max 255 (snd acc)) else None) \<rparr>)"

definition inferSchema :: "string list \<Rightarrow> string list list \<Rightarrow> TableSchema" where
  "inferSchema headers rws =
     map (\<lambda>(colIndex, header). inferColumn rws colIndex header) (enumerate 0 headers)"

text \<open>
  \<open>parseTable\<close> after the traversal of the document: \<open>headers\<close> are the trimmed,
  non-empty header texts and \<open>cellRows\<close> the cell texts of each \<open>tr\<close>, in document
  order. A row is kept when
  \<^verbatim>\<open>
        if (cells.length > 0 && cells.some((cell) => cell.trim() !== "")) {
          const isHeaderRow = cells.every((cell, idx) =>
              this.cleanValue(cell).toLowerCase() === headers[idx]?.toLowerCase());
          if (!isHeaderRow) rawRows.push(cells);
        }
  \<close>
\<close>

definition isHeaderRow :: "string list \<Rightarrow> string list \<Rightarrow> bool" where
  "isHeaderRow headers cells =
     list_all (\<lambda>(idx, cell). case at headers idx of
                  None \<Rightarrow> False
                | Some h \<Rightarrow> toLowerCase (cleanValue cell) = toLowerCase h)
       (enumerate 0 cells)"

definition keepRow :: "string list \<Rightarrow> string list \<Rightarrow> bool" where
  "keepRow headers cells =
     (length cells > 0 \<and> list_ex (\<lambda>cell. trim cell \<noteq> []) cells
      \<and> \<not> isHeaderRow headers cells)"

text \<open>
  \<^verbatim>\<open>
      const row: TableRow = {};
      schema.columns.forEach((column, idx) => {
        const value = rowCells[idx] || "";
        row[column.name] = this.convertValue(value, column.type);
      });
  \<close>
  The object under construction is paired with a flag: whether it still inherits from
  \<open>Object.prototype\<close>. While it does, an assignment to the key \<open>__proto__\<close> runs the
  setter found there, which creates no own property: it takes the prototype away when the
  value is \<open>null\<close>, and does nothing for the other values of \<open>convertValue\<close> (a number,
  a string, a boolean). Every other assignment creates or overwrites an own property. The
  column names are those of \<open>inferSchema\<close>, results of \<open>sanitizeColumnName\<close>: none
  starts with a digit, so none is an integer-like key.
\<close>

definition assignProperty :: "string \<Rightarrow> JsValue \<Rightarrow> TableRow \<times> bool \<Rightarrow> TableRow \<times> bool" where
  "assignProperty key v obj =
     (if key = ''__proto__'' \<and> snd obj then (fst obj, v \<noteq> JNull)
      else (AList.update key v (fst obj), snd obj))"

definition rowObject :: "TableSchema \<Rightarrow> string list \<Rightarrow> TableRow" where
  "rowObject columns rowCells =
     fst (fold (\<lambda>(idx, column).
                  assignProperty (name column)
                    (convertValue (case at rowCells idx of None \<Rightarrow> [] | Some c \<Rightarrow> c)
                       (type column)))
            (enumerate 0 columns) ([], True))"

definition parseTable :: "string list \<Rightarrow> string list list \<Rightarrow> ParsedTable" where
  "parseTable headers cellRows =
     (let rawRows = filter (keepRow headers) cellRows;
          sch = inferSchema headers rawRows
      in \<lparr> schema = sch, rows = map (rowObject sch) rawRows \<rparr>)"

section \<open>Column names as the specification words them\<close>

text \<open>
  The specification's sentence on column names, read step by step: \<^emph>\<open>lower-cased,
  internal whitespace runs replaced with a single underscore, characters outside
  \<open>[a-z0-9_]\<close> removed, a leading digit prefixed with \<open>col_\<close>, truncated to a fixed
  maximum identifier length\<close>. There is no trimming step in it: a run of white space is
  internal when it touches neither end of the string, and only such a run becomes an
  underscore. \<open>spec_internalRuns\<close> works on a string that starts with no white space.
\<close>

function spec_internalRuns :: "string \<Rightarrow> string" where
  "spec_internalRuns [] = []"
| "spec_internalRuns (c # cs) =
     (if is_space c then
        (if dropWhile is_space cs = [] then c # cs
         else CHR ''_'' # spec_internalRuns (dropWhile is_space cs))
      else c # spec_internalRuns cs)"
  by pat_completeness auto
termination
  by (relation "measure length") (auto simp: le_imp_less_Suc length_dropWhile_le)

definition spec_underscoreInternalRuns :: "string \<Rightarrow> string" where
  "spec_underscoreInternalRuns s =
     takeWhile is_space s @ spec_internalRuns (dropWhile is_space s)"

definition spec_sanitizedName :: "string \<Rightarrow> string" where
  "spec_sanitizedName header =
     take 64 (prefixLeadingDigit (filter is_ident
       (spec_underscoreInternalRuns (toLowerCase header))))"

section \<open>Errors\<close>

text \<open>Every \<open>throw\<close> of the modelled code is a value of \<open>Error\<close>; a function that can
  throw returns \<open>Error + 'a\<close>, and the state reached before the throw is dropped.\<close>

text \<open>What \<open>axios.get\<close> rejects with: an error without \<open>response\<close> (the network failed or
  the request timed out), or one with the response's status.\<close>

datatype AxiosError = NoResponse | Response nat

datatype Error =
    NotInitialized \<comment> \<open>\<open>ensureInitialized\<close>: "... is not initialized. Call initialize() first."\<close>
  | ConnectionNotEstablished \<comment> \<open>"Database connection not established"\<close>
  | NotConnected \<comment> \<open>\<open>ensureConnected\<close>: "... is not connected. Call connect() first."\<close>
  | HandlerNotSet \<comment> \<open>"Message handler not set. Call setMessageHandler() first."\<close>
  | JsonSyntaxError \<comment> \<open>\<open>JSON.parse\<close> on a malformed payload\<close>
  | AxiosFailure AxiosError \<comment> \<open>\<open>throw error\<close>: the error of \<open>axios.get\<close>, as caught\<close>
  | FetchFailed nat "AxiosError option"
      \<comment> \<open>"Failed to fetch URL after \<open>maxRetries\<close> attempts: \<open>lastError?.message\<close>"\<close>

text \<open>Sequencing of calls that can throw (\<open>await f(); g()\<close>).\<close>

definition andThen :: "Error + 'a \<Rightarrow> ('a \<Rightarrow> Error + 'b) \<Rightarrow> Error + 'b" where
  "andThen r f = (case r of Inl e \<Rightarrow> Inl e | Inr a \<Rightarrow> f a)"

section \<open>DatabaseService (services/database.service.ts)\<close>

text \<open>
  \<open>BaseService\<close> carries the flag \<open>isInitialized\<close>. Of the MySQL connection the model
  keeps whether it is there (\<open>connection\<close> is \<open>null\<close> or not) and \<open>calls\<close>, the
  requests it has received, in order. A request that reaches the connection is taken to
  succeed: \<open>calls\<close> says what the service sends, not what the server makes of it.
\<close>

record BaseService =
  isInitialized :: bool

datatype SqlType =
  SQL_INT | SQL_BIGINT | SQL_FLOAT | SQL_DATE | SQL_DATETIME | SQL_BOOLEAN | SQL_TEXT
  | SQL_VARCHAR nat

datatype DbCall =
    DropTable \<comment> \<open>\<open>DROP TABLE IF EXISTS table\<close>\<close>
  | CreateTable "(string \<times> SqlType) list"
      \<comment> \<open>\<open>CREATE TABLE IF NOT EXISTS table (id ..., columns, created_at ...)\<close>\<close>
  | InsertInto "string list" nat "JsValue list"
      \<comment> \<open>\<open>INSERT INTO table (columns) VALUES (?, ...), ...\<close>: the column names, the
          number of placeholder tuples, and the bound values\<close>
  | EndConnection \<comment> \<open>\<open>connection.end()\<close>\<close>

record DatabaseService = BaseService +
  connection :: bool
  currentSchema_db :: "TableSchema option"
  calls :: "DbCall list"

text \<open>\<open>onInitialize\<close> opens the connection; \<open>initialize\<close> of \<open>BaseService\<close> does nothing
  when the service is initialized already.\<close>

definition initialize_db :: "DatabaseService \<Rightarrow> DatabaseService" where
  "initialize_db db =
     (if isInitialized db then db else db\<lparr> connection := True, isInitialized := True \<rparr>)"

text \<open>\<open>destroy\<close> of \<open>BaseService\<close> with \<open>onDestroy\<close> of \<open>DatabaseService\<close>.\<close>

definition destroy_db :: "DatabaseService \<Rightarrow> DatabaseService" where
  "destroy_db db =
     (if \<not> isInitialized db then db
      else (if connection db
            then db\<lparr> calls := calls db @ [EndConnection], connection := False \<rparr>
            else db) \<lparr> isInitialized := False \<rparr>)"

text \<open>\<open>mapTypeToSQL\<close>; \<open>maxLength || 255\<close> is 255 for \<open>undefined\<close> and for 0.\<close>

definition mapTypeToSQL :: "DataType \<Rightarrow> nat option \<Rightarrow> SqlType" where
  "mapTypeToSQL dataType maxLen =
     (case dataType of
        INT_T \<Rightarrow> SQL_INT | BIGINT \<Rightarrow> SQL_BIGINT | FLOAT \<Rightarrow> SQL_FLOAT | DATE \<Rightarrow> SQL_DATE
      | TIMESTAMP \<Rightarrow> SQL_DATETIME | BOOLEAN \<Rightarrow> SQL_BOOLEAN | TEXT \<Rightarrow> SQL_TEXT
      | VARCHAR \<Rightarrow> SQL_VARCHAR (case maxLen of None \<Rightarrow> 255 | Some n \<Rightarrow> if n = 0 then 255 else n))"

definition createTable :: "TableSchema \<Rightarrow> DatabaseService \<Rightarrow> Error + DatabaseService" where
  "createTable sch db =
     (if \<not> isInitialized db then Inl NotInitialized
      else if \<not> connection db then Inl ConnectionNotEstablished
      else Inr (db\<lparr> calls := calls db @
                   [DropTable,
                    CreateTable (map (\<lambda>col. (name col, mapTypeToSQL (type col) (maxLength col))) sch)],
                 currentSchema_db := Some sch \<rparr>))"

text \<open>
  \<^verbatim>\<open>
    const columns = Object.keys(rows[0]).filter((key) => rows[0][key] !== undefined);
    rows.forEach((row) => {
      const rowValues = columns.map((col) => row[col] === undefined ? null : row[col]);
      values.push(...rowValues);
      valuePlaceholders.push(`(${columns.map(() => "?").join(", ")})`);
    });
  \<close>
  The rows are plain objects (the consumer gets them from \<open>JSON.parse\<close>), so they
  inherit from \<open>Object.prototype\<close>. \<open>row[key]\<close> is the row's own property of that name
  if it has one; otherwise the property of \<open>Object.prototype\<close> of that name if there is
  one; otherwise \<open>undefined\<close>. \<open>objectPrototypeKeys\<close> are the property names of
  \<open>Object.prototype\<close>.
\<close>

definition objectPrototypeKeys :: "string list" where
  "objectPrototypeKeys =
     [''constructor'', ''__defineGetter__'', ''__defineSetter__'', ''hasOwnProperty'',
      ''__lookupGetter__'', ''__lookupSetter__'', ''isPrototypeOf'', ''propertyIsEnumerable'',
      ''toString'', ''valueOf'', ''__proto__'', ''toLocaleString'']"

definition getProperty :: "TableRow \<Rightarrow> string \<Rightarrow> JsValue" where
  "getProperty rw key =
     (case map_of rw key of
        Some v \<Rightarrow> v
      | None \<Rightarrow> if key \<in> set objectPrototypeKeys then JInherited key else JUndefined)"

definition insertColumns :: "TableRow list \<Rightarrow> string list" where
  "insertColumns rws =
     filter (\<lambda>key. getProperty (hd rws) key \<noteq> JUndefined) (map fst (hd rws))"

definition rowValues :: "string list \<Rightarrow> TableRow \<Rightarrow> JsValue list" where
  "rowValues columns rw =
     map (\<lambda>col. if getProperty rw col = JUndefined then JNull else getProperty rw col) columns"

definition insertBatch :: "TableRow list \<Rightarrow> DatabaseService \<Rightarrow> Error + DatabaseService" where
  "insertBatch rws db =
     (if \<not> isInitialized db then Inl NotInitialized
      else if \<not> connection db then Inl ConnectionNotEstablished
      else if length rws = 0 then Inr db
      else (let columns = insertColumns rws
            in Inr (db\<lparr> calls := calls db @
                 [InsertInto columns (length rws) (concat (map (rowValues columns) rws))] \<rparr>)))"

section \<open>HttpService (services/http.service.ts)\<close>

record HttpService = BaseService +
  maxRetries :: nat
  retryDelay :: nat
  timeout :: nat

text \<open>
  \<^verbatim>\<open>
  private isRetriableError(error: AxiosError): boolean {
    if (!error.response) return true;
    const status = error.response.status;
    return status >= 500 || status === 429;
  }
  \<close>
\<close>

definition isRetriableError :: "AxiosError \<Rightarrow> bool" where
  "isRetriableError error =
     (case error of NoResponse \<Rightarrow> True | Response status \<Rightarrow> status \<ge> 500 \<or> status = 429)"

text \<open>The outcome of one \<open>axios.get\<close>, and what \<open>fetchHtml\<close> does that can be seen from
  outside: a request (numbered by its attempt) or a \<open>sleep\<close> of so many milliseconds.\<close>

datatype Outcome = Fetched string | Failed AxiosError

datatype Action = Request nat | Sleep nat

text \<open>
  The loop of \<open>fetchHtml\<close>, from \<open>attempt\<close> on; \<open>axiosGet k\<close> is the outcome of the
  \<open>k\<close>-th request, \<open>lastError\<close> and the actions so far are carried along.
  \<^verbatim>\<open>
    for (let attempt = 1; attempt <= this.maxRetries; attempt++) {
      try {
        const response = await axios.get(url, ...);
        return response.data;
      } catch (error) {
        lastError = error as Error;
        if (attempt === this.maxRetries) break;
        if (!this.isRetriableError(axiosError)) throw error;
        const delay = this.retryDelay * attempt;
        await this.sleep(delay);
      }
    }
    throw new Error(`Failed to fetch URL after ${this.maxRetries} attempts: ${lastError?.message}`);
  \<close>
  The \<open>break\<close> leads to the \<open>throw\<close> after the loop, with the error just caught as
  \<open>lastError\<close>.
\<close>

function fetchLoop ::
  "HttpService \<Rightarrow> (nat \<Rightarrow> Outcome) \<Rightarrow> nat \<Rightarrow> AxiosError option \<Rightarrow> Action list
     \<Rightarrow> Action list \<times> (Error + string)" where
  "fetchLoop svc axiosGet attempt lastError acts =
     (if attempt \<le> maxRetries svc then
        (case axiosGet attempt of
           Fetched html \<Rightarrow> (acts @ [Request attempt], Inr html)
         | Failed error \<Rightarrow>
             if attempt = maxRetries svc
             then (acts @ [Request attempt], Inl (FetchFailed (maxRetries svc) (Some error)))
             else if \<not> isRetriableError error
             then (acts @ [Request attempt], Inl (AxiosFailure error))
             else fetchLoop svc axiosGet (attempt + 1) (Some error)
                    (acts @ [Request attempt, Sleep (retryDelay svc * attempt)]))
      else (acts, Inl (FetchFailed (maxRetries svc) lastError)))"
  by pat_completeness auto
termination
  by (relation "measure (\<lambda>(svc, axiosGet, attempt, lastError, acts). maxRetries svc + 1 - attempt)")
     auto

declare fetchLoop.simps [simp del]

definition fetchHtml :: "HttpService \<Rightarrow> (nat \<Rightarrow> Outcome) \<Rightarrow> Action list \<times> (Error + string)" where
  "fetchHtml svc axiosGet =
     (if \<not> isInitialized svc then ([], Inl NotInitialized)
      else fetchLoop svc axiosGet 1 None [])"

definition isRequest :: "Action \<Rightarrow> bool" where
  "isRequest a = (case a of Request k \<Rightarrow> True | Sleep ms \<Rightarrow> False)"

section \<open>The consumer: KafkaConsumerService and ConsumerController\<close>

text \<open>
  The payload of a broker message after \<open>JSON.parse\<close>: malformed text makes
  \<open>JSON.parse\<close> throw; otherwise the value is read as a \<open>KafkaMessage\<close>. Its \<open>schema\<close>
  may be missing, which \<open>handleMessage\<close> tests for; its \<open>row\<close> is an object, as the
  interface says. (A payload without a row is covered by the section on overlapping
  flushes, where the rows are opaque.)
\<close>

record KafkaMessage =
  schema_km :: "TableSchema option"
  row :: TableRow
  timestamp :: nat
  sourceUrl :: string

datatype Payload = Malformed | Parsed KafkaMessage

text \<open>
  The three closures that \<open>ConsumerController\<close> passes to \<open>setMessageHandler\<close>: in
  \<open>initialize\<close> (it calls \<open>this.handleMessage\<close>), in \<open>start\<close> (an empty body) and in
  \<open>setupBatchProcessing\<close>.
\<close>

datatype Handler = InitializeHandler | EmptyHandler | BatchHandler

record BaseKafka =
  isConnected :: bool

record KafkaConsumerService = BaseKafka +
  messageHandler :: "Handler option"
  messageBuffer :: "TableRow list"
  currentSchema :: "TableSchema option"
  batchSize :: nat

text \<open>\<open>messageBuffer_batch\<close> and \<open>batchCount\<close> are the variables \<open>messageBuffer\<close> and
  \<open>batchCount\<close> that the closures of \<open>setupBatchProcessing\<close> share.\<close>

record ConsumerController =
  databaseService :: DatabaseService
  kafkaConsumer :: KafkaConsumerService
  tableInitialized :: bool
  messageBuffer_batch :: "TableRow list"
  batchCount :: nat

subsection \<open>The handlers\<close>

text \<open>
  \<^verbatim>\<open>
  private async handleMessage(schema: TableSchema, row: TableRow): Promise<void> {
    if (!this.tableInitialized) {
      await this.databaseService.createTable(schema);
      this.tableInitialized = true;
    }
  }
  \<close>
\<close>

definition handleMessage_controller ::
  "TableSchema \<Rightarrow> TableRow \<Rightarrow> ConsumerController \<Rightarrow> Error + ConsumerController" where
  "handleMessage_controller sch rw ctl =
     (if \<not> tableInitialized ctl
      then andThen (createTable sch (databaseService ctl))
             (\<lambda>db. Inr (ctl\<lparr> databaseService := db, tableInitialized := True \<rparr>))
      else Inr ctl)"

text \<open>
  The handler of \<open>setupBatchProcessing\<close>:
  \<^verbatim>\<open>
      async (schema: TableSchema, row: TableRow) => {
        if (!this.tableInitialized && schema) {
          await this.databaseService.createTable(schema);
          this.tableInitialized = true;
        }
        messageBuffer.push(row);
        batchCount++;
        if (messageBuffer.length >= 100) {
          await this.databaseService.insertBatch([...messageBuffer]);
          messageBuffer.length = 0; // Clear buffer
        }
      }
  \<close>
  \<open>schema\<close> is an object here, hence truthy.
\<close>

definition batchHandler ::
  "TableSchema \<Rightarrow> TableRow \<Rightarrow> ConsumerController \<Rightarrow> Error + ConsumerController" where
  "batchHandler sch rw ctl =
     andThen
       (if \<not> tableInitialized ctl
        then andThen (createTable sch (databaseService ctl))
               (\<lambda>db. Inr (ctl\<lparr> databaseService := db, tableInitialized := True \<rparr>))
        else Inr ctl)
       (\<lambda>c1. let c2 = c1\<lparr> messageBuffer_batch := messageBuffer_batch c1 @ [rw],
                            batchCount := batchCount c1 + 1 \<rparr>
             in if length (messageBuffer_batch c2) \<ge> 100
                then andThen (insertBatch (messageBuffer_batch c2) (databaseService c2))
                       (\<lambda>db. Inr (c2\<lparr> databaseService := db, messageBuffer_batch := [] \<rparr>))
                else Inr c2)"

definition runHandler ::
  "Handler \<Rightarrow> TableSchema \<Rightarrow> TableRow \<Rightarrow> ConsumerController \<Rightarrow> Error + ConsumerController" where
  "runHandler h sch rw ctl =
     (case h of
        InitializeHandler \<Rightarrow> handleMessage_controller sch rw ctl
      | EmptyHandler \<Rightarrow> Inr ctl
      | BatchHandler \<Rightarrow> batchHandler sch rw ctl)"

text \<open>The periodic callback of \<open>setupBatchProcessing\<close>:
  \<^verbatim>\<open>
      if (messageBuffer.length > 0) {
        await this.databaseService.insertBatch([...messageBuffer]);
        messageBuffer.length = 0;
      }
  \<close>
\<close>

definition batchTimer :: "ConsumerController \<Rightarrow> Error + ConsumerController" where
  "batchTimer ctl =
     (if length (messageBuffer_batch ctl) > 0
      then andThen (insertBatch (messageBuffer_batch ctl) (databaseService ctl))
             (\<lambda>db. Inr (ctl\<lparr> databaseService := db, messageBuffer_batch := [] \<rparr>))
      else Inr ctl)"

subsection \<open>KafkaConsumerService, one callback at a time\<close>

text \<open>
  In this section a callback runs to its end before the next one starts: no timer fires
  while a flush waits for its handler. The section on overlapping flushes drops this.
  \<^verbatim>\<open>
    for (const row of this.messageBuffer) {
      await this.messageHandler(this.currentSchema, row);
    }
  \<close>
\<close>

fun forEachRow ::
  "Handler \<Rightarrow> TableSchema \<Rightarrow> TableRow list \<Rightarrow> ConsumerController \<Rightarrow> Error + ConsumerController"
  where
  "forEachRow h sch [] ctl = Inr ctl"
| "forEachRow h sch (rw # rws) ctl = andThen (runHandler h sch rw ctl) (forEachRow h sch rws)"

text \<open>
  \<^verbatim>\<open>
  private async flushBuffer(): Promise<void> {
    if (this.messageBuffer.length === 0 || !this.messageHandler || !this.currentSchema) return;
    for (const row of this.messageBuffer) { await this.messageHandler(this.currentSchema, row); }
    this.messageBuffer = [];
  }
  \<close>
\<close>

definition flushBuffer :: "ConsumerController \<Rightarrow> Error + ConsumerController" where
  "flushBuffer ctl =
     (let k = kafkaConsumer ctl in
      case (messageHandler k, currentSchema k) of
        (Some h, Some sch) \<Rightarrow>
          if length (messageBuffer k) = 0 then Inr ctl
          else andThen (forEachRow h sch (messageBuffer k) ctl)
                 (\<lambda>c. Inr (c\<lparr> kafkaConsumer := (kafkaConsumer c)\<lparr> messageBuffer := [] \<rparr> \<rparr>))
      | _ \<Rightarrow> Inr ctl)"

text \<open>
  \<^verbatim>\<open>
      const kafkaMessage: KafkaMessage = JSON.parse(message.value?.toString() || "{}");
      if (!this.currentSchema && kafkaMessage.schema) this.currentSchema = kafkaMessage.schema;
      this.messageBuffer.push(kafkaMessage.row);
      if (this.messageBuffer.length >= this.batchSize && this.messageHandler) await this.flushBuffer();
  \<close>
\<close>

definition handleMessage :: "Payload \<Rightarrow> ConsumerController \<Rightarrow> Error + ConsumerController" where
  "handleMessage payload ctl =
     (case payload of
        Malformed \<Rightarrow> Inl JsonSyntaxError
      | Parsed kafkaMessage \<Rightarrow>
          (let k = kafkaConsumer ctl;
               k1 = (if currentSchema k = None \<and> schema_km kafkaMessage \<noteq> None
                     then k\<lparr> currentSchema := schema_km kafkaMessage \<rparr> else k);
               k2 = k1\<lparr> messageBuffer := messageBuffer k1 @ [row kafkaMessage] \<rparr>;
               c2 = ctl\<lparr> kafkaConsumer := k2 \<rparr>
           in if length (messageBuffer k2) \<ge> batchSize k2 \<and> messageHandler k2 \<noteq> None
              then flushBuffer c2 else Inr c2))"

text \<open>The periodic callback of \<open>startConsuming\<close>:
  \<^verbatim>\<open>
      if (this.messageBuffer.length > 0 && this.messageHandler) await this.flushBuffer();
  \<close>
\<close>

definition periodicFlush :: "ConsumerController \<Rightarrow> Error + ConsumerController" where
  "periodicFlush ctl =
     (if length (messageBuffer (kafkaConsumer ctl)) > 0
         \<and> messageHandler (kafkaConsumer ctl) \<noteq> None
      then flushBuffer ctl else Inr ctl)"

subsection \<open>Life cycle of the controller\<close>

definition newController :: "nat \<Rightarrow> ConsumerController" where
  "newController bs =
     \<lparr> databaseService =
         \<lparr> isInitialized = False, connection = False, currentSchema_db = None, calls = [] \<rparr>,
       kafkaConsumer =
         \<lparr> isConnected = False, messageHandler = None, messageBuffer = [],
           currentSchema = None, batchSize = bs \<rparr>,
       tableInitialized = False, messageBuffer_batch = [], batchCount = 0 \<rparr>"

text \<open>\<open>ConsumerController.initialize\<close>: the database service is initialized, the
  consumer connected, and the first handler set.\<close>

definition initialize :: "ConsumerController \<Rightarrow> ConsumerController" where
  "initialize ctl =
     ctl\<lparr> databaseService := initialize_db (databaseService ctl),
          kafkaConsumer := (kafkaConsumer ctl)\<lparr> isConnected := True,
                                               messageHandler := Some InitializeHandler \<rparr> \<rparr>"

text \<open>\<open>ConsumerController.start\<close>: the handler is replaced twice (the last one is that of
  \<open>setupBatchProcessing\<close>), then \<open>startConsuming\<close> checks the connection and the handler,
  subscribes, and starts its timer.\<close>

definition start :: "ConsumerController \<Rightarrow> Error + ConsumerController" where
  "start ctl =
     (let c1 = ctl\<lparr> kafkaConsumer := (kafkaConsumer ctl)\<lparr> messageHandler := Some EmptyHandler \<rparr> \<rparr>;
          c2 = c1\<lparr> kafkaConsumer := (kafkaConsumer c1)\<lparr> messageHandler := Some BatchHandler \<rparr> \<rparr>
      in if \<not> isConnected (kafkaConsumer c2) then Inl NotConnected
         else if messageHandler (kafkaConsumer c2) = None then Inl HandlerNotSet
         else Inr c2)"

text \<open>
  \<open>ConsumerController.destroy\<close>: \<open>kafkaConsumer.disconnect()\<close>, whose \<open>onDisconnect\<close> is
  \<^verbatim>\<open>
    if (this.messageBuffer.length > 0 && this.messageHandler && this.currentSchema) {
      await this.flushBuffer();
    }
    await this.consumer.disconnect();
  \<close>
  and then \<open>databaseService.destroy()\<close>.
\<close>

definition disconnect :: "ConsumerController \<Rightarrow> Error + ConsumerController" where
  "disconnect ctl =
     (let k = kafkaConsumer ctl in
      if \<not> isConnected k then Inr ctl
      else andThen
             (if length (messageBuffer k) > 0 \<and> messageHandler k \<noteq> None \<and> currentSchema k \<noteq> None
              then flushBuffer ctl else Inr ctl)
             (\<lambda>c. Inr (c\<lparr> kafkaConsumer := (kafkaConsumer c)\<lparr> isConnected := False \<rparr> \<rparr>)))"

definition destroy :: "ConsumerController \<Rightarrow> Error + ConsumerController" where
  "destroy ctl =
     andThen (disconnect ctl)
       (\<lambda>c. Inr (c\<lparr> databaseService := destroy_db (databaseService c) \<rparr>))"

subsection \<open>Runs of the started consumer\<close>

datatype Event = Message Payload | PeriodicFlush | BatchTimer

definition step :: "Event \<Rightarrow> ConsumerController \<Rightarrow> Error + ConsumerController" where
  "step ev ctl =
     (case ev of
        Message payload \<Rightarrow> handleMessage payload ctl
      | PeriodicFlush \<Rightarrow> periodicFlush ctl
      | BatchTimer \<Rightarrow> batchTimer ctl)"

fun run :: "Event list \<Rightarrow> ConsumerController \<Rightarrow> Error + ConsumerController" where
  "run [] ctl = Inr ctl"
| "run (ev # evs) ctl = andThen (step ev ctl) (run evs)"

text \<open>The controller after \<open>initialize\<close> and \<open>start\<close>.\<close>

definition started :: "nat \<Rightarrow> Error + ConsumerController" where
  "started bs = start (initialize (newController bs))"

section \<open>Predicates on the state of the consumer\<close>

text \<open>No \<open>INSERT\<close> among the requests has zero tuples.\<close>

definition insertsNonEmpty :: "DbCall list \<Rightarrow> bool" where
  "insertsNonEmpty cs =
     list_all (\<lambda>c. case c of InsertInto columns n vals \<Rightarrow> n > 0 | _ \<Rightarrow> True) cs"

text \<open>The database service is initialized and holds a connection.\<close>

definition dbReady :: "ConsumerController \<Rightarrow> bool" where
  "dbReady ctl = (isInitialized (databaseService ctl) \<and> connection (databaseService ctl))"


text \<open>The \<open>CREATE TABLE\<close> requests among the calls, and the request that \<open>createTable\<close>
  issues for a schema.\<close>

definition createCalls :: "DbCall list \<Rightarrow> DbCall list" where
  "createCalls cs = filter (\<lambda>c. case c of CreateTable columns \<Rightarrow> True | _ \<Rightarrow> False) cs"

definition createCallFor :: "TableSchema \<Rightarrow> DbCall" where
  "createCallFor sch =
     CreateTable (map (\<lambda>col. (name col, mapTypeToSQL (type col) (maxLength col))) sch)"

text \<open>The number of rows that the \<open>INSERT\<close> requests carry.\<close>

definition rowsWritten :: "DbCall list \<Rightarrow> nat" where
  "rowsWritten cs = sum_list (map (\<lambda>c. case c of InsertInto columns n vals \<Rightarrow> n | _ \<Rightarrow> 0) cs)"

section \<open>Overlapping flushes of KafkaConsumerService\<close>

text \<open>
  \<open>flushBuffer\<close> gives up control at every \<open>await this.messageHandler(...)\<close>; the timer
  callback of \<open>startConsuming\<close> can run in between. This model takes one step per
  stretch of synchronous code. The arrays live in a store, because
  \<open>this.messageBuffer = []\<close> binds the field to a new array while a \<open>for ... of\<close> loop
  that started on the old array goes on reading the old one. The handler is kept abstract:
  \<open>handlerCalls\<close> lists its invocations, in order.

  The consumer never looks into a row. What it buffers is the value of \<open>kafkaMessage.row\<close>:
  an object, or \<open>undefined\<close> (\<open>None\<close>) when the payload has no row, as for an empty
  broker message, which \<open>handleMessage\<close> parses as \<open>{}\<close>.

  A \<open>Flush\<close> is an activation of \<open>flushBuffer\<close> that waits for the handler call on the
  element \<open>position\<close> of the array \<open>array\<close>.
\<close>

type_synonym Buffered = "TableRow option"

record Flush =
  array :: nat
  position :: nat

record Overlap =
  arrays :: "Buffered list list"
  messageBuffer_ref :: nat
  currentSchema_o :: "TableSchema option"
  handlerSet :: bool
  batchSize_o :: nat
  flushes :: "Flush list"
  handlerCalls :: "(TableSchema \<times> Buffered) list"

text \<open>The array that \<open>this.messageBuffer\<close> refers to.\<close>

definition buffer :: "Overlap \<Rightarrow> Buffered list" where
  "buffer st = arrays st ! messageBuffer_ref st"

text \<open>
  \<open>flushBuffer\<close> from its entry to the first \<open>await\<close>: the guard, then the handler is
  called on the first element and the activation waits.
\<close>

definition flushBuffer_enter :: "Overlap \<Rightarrow> Overlap" where
  "flushBuffer_enter st =
     (case currentSchema_o st of
        None \<Rightarrow> st
      | Some sch \<Rightarrow>
          if length (buffer st) = 0 \<or> \<not> handlerSet st then st
          else st\<lparr> handlerCalls := handlerCalls st @ [(sch, buffer st ! 0)],
                   flushes := flushes st @ [\<lparr> array = messageBuffer_ref st, position = 0 \<rparr>] \<rparr>)"

text \<open>
  The awaited handler call of the activation number \<open>i\<close> has returned: the loop takes the
  next element of its array, if there is one, and waits again; otherwise it runs
  \<open>this.messageBuffer = []\<close> and the activation ends.
\<close>

definition flushBuffer_resume :: "nat \<Rightarrow> Overlap \<Rightarrow> Overlap" where
  "flushBuffer_resume i st =
     (if i < length (flushes st) then
        (let f = flushes st ! i; next = position f + 1
         in if next < length (arrays st ! array f) then
              (case currentSchema_o st of
                 None \<Rightarrow> st
               | Some sch \<Rightarrow>
                   st\<lparr> handlerCalls := handlerCalls st @ [(sch, arrays st ! array f ! next)],
                        flushes := (flushes st)[i := f\<lparr> position := next \<rparr>] \<rparr>)
            else st\<lparr> arrays := arrays st @ [[]],
                     messageBuffer_ref := length (arrays st),
                     flushes := take i (flushes st) @ drop (i + 1) (flushes st) \<rparr>)
      else st)"

text \<open>
  The awaited handler call of the activation number \<open>i\<close> has thrown: the exception leaves
  \<open>flushBuffer\<close>, so the loop stops there and \<open>this.messageBuffer = []\<close> is not run.
  \<open>handleMessage\<close> logs the error and throws it again; no field of the consumer changes.
\<close>

definition flushBuffer_throws :: "nat \<Rightarrow> Overlap \<Rightarrow> Overlap" where
  "flushBuffer_throws i st =
     (if i < length (flushes st)
      then st\<lparr> flushes := take i (flushes st) @ drop (i + 1) (flushes st) \<rparr>
      else st)"

text \<open>
  \<open>handleMessage\<close> on a payload that \<open>JSON.parse\<close> accepts, up to the point where it
  waits for the flush:
  \<^verbatim>\<open>
      const kafkaMessage: KafkaMessage = JSON.parse(message.value?.toString() || "{}");
      if (!this.currentSchema && kafkaMessage.schema) this.currentSchema = kafkaMessage.schema;
      this.messageBuffer.push(kafkaMessage.row);
      if (this.messageBuffer.length >= this.batchSize && this.messageHandler) await this.flushBuffer();
  \<close>
  \<open>sch\<close> is \<open>kafkaMessage.schema\<close>, or \<open>None\<close> when there is none (the test is for a
  truthy value); \<open>rw\<close> is \<open>kafkaMessage.row\<close>. On a payload that is not JSON the call
  of \<open>JSON.parse\<close> throws before anything is assigned, and no field changes: such a
  message is no turn of the model.
\<close>

definition handleMessage_enter :: "TableSchema option \<Rightarrow> Buffered \<Rightarrow> Overlap \<Rightarrow> Overlap" where
  "handleMessage_enter sch rw st =
     (let s1 = (if currentSchema_o st = None \<and> sch \<noteq> None
                then st\<lparr> currentSchema_o := sch \<rparr> else st);
          s2 = s1\<lparr> arrays := (arrays s1)[messageBuffer_ref s1 := buffer s1 @ [rw]] \<rparr>
      in if length (buffer s2) \<ge> batchSize_o s2 \<and> handlerSet s2
         then flushBuffer_enter s2 else s2)"

text \<open>The timer callback of \<open>startConsuming\<close>.\<close>

definition timer_fires :: "Overlap \<Rightarrow> Overlap" where
  "timer_fires st =
     (if length (buffer st) > 0 \<and> handlerSet st then flushBuffer_enter st else st)"

text \<open>\<open>onDisconnect\<close>, up to the point where it waits for the flush.\<close>

definition onDisconnect_enter :: "Overlap \<Rightarrow> Overlap" where
  "onDisconnect_enter st =
     (if length (buffer st) > 0 \<and> handlerSet st \<and> currentSchema_o st \<noteq> None
      then flushBuffer_enter st else st)"

text \<open>
  One stretch of synchronous code of the consumer: a message is received, the timer
  fires, the consumer is asked to disconnect, or the handler call that an activation of
  \<open>flushBuffer\<close> waits for returns or throws. Every order of turns is allowed, so the
  runs of the model include every run of the consumer.
\<close>

datatype Turn =
    Receive "TableSchema option" Buffered
  | TimerFires
  | Disconnects
  | HandlerReturns nat
  | HandlerThrows nat

definition turn :: "Turn \<Rightarrow> Overlap \<Rightarrow> Overlap" where
  "turn t st =
     (case t of
        Receive sch rw \<Rightarrow> handleMessage_enter sch rw st
      | TimerFires \<Rightarrow> timer_fires st
      | Disconnects \<Rightarrow> onDisconnect_enter st
      | HandlerReturns i \<Rightarrow> flushBuffer_resume i st
      | HandlerThrows i \<Rightarrow> flushBuffer_throws i st)"

definition turns :: "Turn list \<Rightarrow> Overlap \<Rightarrow> Overlap" where
  "turns ts st = fold turn ts st"

text \<open>
  The schema of the first message, among those received in a list of turns, that carries
  one; and a turn with the schema taken out of its message.
\<close>

fun firstSchema :: "Turn list \<Rightarrow> TableSchema option" where
  "firstSchema [] = None"
| "firstSchema (Receive (Some sch) rw # ts) = Some sch"
| "firstSchema (t # ts) = firstSchema ts"

definition withoutSchema :: "Turn \<Rightarrow> Turn" where
  "withoutSchema t = (case t of Receive sch rw \<Rightarrow> Receive None rw | _ \<Rightarrow> t)"

text \<open>The Kafka consumer once \<open>startConsuming\<close> has returned: one empty array, no schema,
  the handler set.\<close>

definition consuming :: "nat \<Rightarrow> Overlap" where
  "consuming bs =
     \<lparr> arrays = [[]], messageBuffer_ref = 0, currentSchema_o = None, handlerSet = True,
       batchSize_o = bs, flushes = [], handlerCalls = [] \<rparr>"

chapter \<open>Properties\<close>

section \<open>The merge of types is a join, and the scan does not depend on the order of rows\<close>

lemma mergeDataTypes_commute: "mergeDataTypes a b = mergeDataTypes b a"
  by (cases a; cases b) (simp_all add: mergeDataTypes_def)

lemma priority_inject: "priority a = priority b \<Longrightarrow> a = b"
  by (cases a; cases b) simp_all

lemma mergeDataTypes_priority:
  "priority (mergeDataTypes a b) = max (priority a) (priority b)"
  by (auto simp: mergeDataTypes_def max_def dest: priority_inject)

lemma mergeDataTypes_assoc:
  "mergeDataTypes (mergeDataTypes a b) c = mergeDataTypes a (mergeDataTypes b c)"
  by (rule priority_inject) (simp add: mergeDataTypes_priority max.assoc)

lemma mergeDataTypes_idem: "mergeDataTypes a a = a"
  by (simp add: mergeDataTypes_def)

lemma mergeDataTypes_left_commute:
  "mergeDataTypes (mergeDataTypes t a) b = mergeDataTypes (mergeDataTypes t b) a"
  by (rule priority_inject) (simp add: mergeDataTypes_priority max.assoc max.commute max.left_commute)

lemma scanCell_commute:
  "scanCell i r1 (scanCell i r2 acc) = scanCell i r2 (scanCell i r1 acc)"
  by (auto simp: scanCell_def Let_def mergeDataTypes_left_commute max.assoc max.commute max.left_commute
           split: option.splits)

lemma fold_scanCell_perm:
  assumes "mset rws = mset rws'"
  shows "fold (scanCell i) rws acc = fold (scanCell i) rws' acc"
proof -
  have "fold (scanCell i) rws = fold (scanCell i) rws'"
    by (rule fold_multiset_equiv) (auto simp: fun_eq_iff scanCell_commute assms)
  then show ?thesis by simp
qed

lemma inferSchema_perm:
  "mset rws = mset rws' \<Longrightarrow> inferSchema headers rws = inferSchema headers rws'"
  by (simp add: inferSchema_def inferColumn_def fold_scanCell_perm [of rws rws'])

text \<open>
  Claim C4. \<open>mergeDataTypes\<close> is commutative, associative and idempotent on every triple of
  \<open>DataType\<close> values. Hence folding it over the types of a column's cells gives the same
  type for every order of the cells, and \<open>inferSchema\<close> returns the same schema (the
  type and the \<open>maxLength\<close> of every column) for every order in which the rows are scanned.
\<close>

theorem mergeDataTypes_join_laws_and_scan_order:
  "mergeDataTypes a b = mergeDataTypes b a
   \<and> mergeDataTypes (mergeDataTypes a b) c = mergeDataTypes a (mergeDataTypes b c)
   \<and> mergeDataTypes a a = a
   \<and> (mset ts = mset ts' \<longrightarrow>
        fold (\<lambda>v acc. mergeDataTypes acc v) ts t0 = fold (\<lambda>v acc. mergeDataTypes acc v) ts' t0)
   \<and> (mset rws = mset rws' \<longrightarrow> inferSchema headers rws = inferSchema headers rws')"
proof (intro conjI impI)
  show "mergeDataTypes a b = mergeDataTypes b a"
    by (rule mergeDataTypes_commute)
  show "mergeDataTypes (mergeDataTypes a b) c = mergeDataTypes a (mergeDataTypes b c)"
    by (rule mergeDataTypes_assoc)
  show "mergeDataTypes a a = a"
    by (rule mergeDataTypes_idem)
  show "fold (\<lambda>v acc. mergeDataTypes acc v) ts t0 = fold (\<lambda>v acc. mergeDataTypes acc v) ts' t0"
    if "mset ts = mset ts'"
  proof -
    have "fold (\<lambda>v acc. mergeDataTypes acc v) ts = fold (\<lambda>v acc. mergeDataTypes acc v) ts'"
      by (rule fold_multiset_equiv) (auto simp: fun_eq_iff mergeDataTypes_left_commute that)
    then show ?thesis by simp
  qed
  show "inferSchema headers rws = inferSchema headers rws'" if "mset rws = mset rws'"
    using that by (rule inferSchema_perm)
qed

theorem mergeDataTypes_join_laws_and_scan_order_witness:
  "mset [DATE, FLOAT, INT_T] = mset [INT_T, DATE, FLOAT]
   \<and> fold (\<lambda>v acc. mergeDataTypes acc v) [DATE, FLOAT, INT_T] BOOLEAN = FLOAT
   \<and> fold (\<lambda>v acc. mergeDataTypes acc v) [INT_T, DATE, FLOAT] BOOLEAN = FLOAT
   \<and> mset [[''30''], [''a very long story'']] = mset [[''a very long story''], [''30'']]
   \<and> inferSchema [''Age''] [[''30''], [''a very long story'']]
       = inferSchema [''Age''] [[''a very long story''], [''30'']]"
  using mergeDataTypes_join_laws_and_scan_order
    [of DATE FLOAT INT_T "[DATE, FLOAT, INT_T]" "[INT_T, DATE, FLOAT]" BOOLEAN
        "[[''30''], [''a very long story'']]" "[[''a very long story''], [''30'']]" "[''Age'']"]
  by (simp add: mergeDataTypes_def)

section \<open>Sanitized column names\<close>

lemma is_space_lower_char: "is_space (lower_char c) = is_space c"
  by (simp add: is_space_def lower_char_def code_def)

lemma space_not_ident: "is_space c \<Longrightarrow> \<not> is_ident c"
  by (auto simp: is_space_def is_ident_def is_digit_def code_def)

lemma toLowerCase_trim: "toLowerCase (trim s) = trim (toLowerCase s)"
proof -
  have *: "is_space \<circ> lower_char = is_space"
    by (simp add: fun_eq_iff is_space_lower_char)
  show ?thesis
    by (simp add: toLowerCase_def trim_def rev_map dropWhile_map *)
qed

lemma trimRight_all: "\<forall>x\<in>set xs. P x \<Longrightarrow> rev (dropWhile P (rev xs)) = []"
  by simp

lemma trimRight_keep:
  "\<not> (\<forall>x\<in>set (c # cs). P x) \<Longrightarrow>
     rev (dropWhile P (rev (c # cs))) = c # rev (dropWhile P (rev cs))"
  by (auto simp: dropWhile_append)

lemma dropWhile_trimRight:
  "dropWhile P (rev (dropWhile P (rev cs))) = rev (dropWhile P (rev (dropWhile P cs)))"
proof (induction cs)
  case Nil
  then show ?case by simp
next
  case (Cons c cs)
  show ?case
  proof (cases "\<forall>x\<in>set (c # cs). P x")
    case True
    then have a: "dropWhile P (c # cs) = []"
      by (simp only: dropWhile_eq_Nil_conv)
    have b: "rev (dropWhile P (rev (c # cs))) = []"
      using True by (rule trimRight_all)
    show ?thesis unfolding a b by simp
  next
    case False
    then have k: "rev (dropWhile P (rev (c # cs))) = c # rev (dropWhile P (rev cs))"
      by (rule trimRight_keep)
    show ?thesis
    proof (cases "P c")
      case True
      then show ?thesis using Cons.IH by (simp only: k dropWhile.simps if_True)
    next
      case False
      then show ?thesis by (simp only: k dropWhile.simps if_False)
    qed
  qed
qed

lemma filter_ident_spaces: "\<forall>x\<in>set s. is_space x \<Longrightarrow> filter is_ident s = []"
  by (induction s) (auto dest: space_not_ident)

lemma spec_internalRuns_refines:
  "filter is_ident (replaceSpaceRuns ''_'' (rev (dropWhile is_space (rev s))))
     = filter is_ident (spec_internalRuns s)"
proof (induction s rule: spec_internalRuns.induct)
  case 1
  then show ?case by simp
next
  case (2 c cs)
  show ?case
  proof (cases "is_space c")
    case False
    then have "rev (dropWhile is_space (rev (c # cs))) = c # rev (dropWhile is_space (rev cs))"
      by (intro trimRight_keep) auto
    with False 2 show ?thesis by simp
  next
    case sp: True
    show ?thesis
    proof (cases "dropWhile is_space cs = []")
      case True
      then have all: "\<forall>x\<in>set (c # cs). is_space x"
        using sp by simp
      then have a: "rev (dropWhile is_space (rev (c # cs))) = []"
        by (rule trimRight_all)
      have b: "filter is_ident (c # cs) = []"
        using all by (rule filter_ident_spaces)
      have c: "spec_internalRuns (c # cs) = c # cs"
        using sp True by simp
      show ?thesis unfolding a c b by simp
    next
      case False
      then have nall: "\<not> (\<forall>x\<in>set (c # cs). is_space x)"
        by simp
      then have k: "rev (dropWhile is_space (rev (c # cs))) = c # rev (dropWhile is_space (rev cs))"
        by (rule trimRight_keep)
      have r: "replaceSpaceRuns ''_'' (rev (dropWhile is_space (rev (c # cs))))
          = ''_'' @ replaceSpaceRuns ''_'' (rev (dropWhile is_space (rev (dropWhile is_space cs))))"
        unfolding k using sp by (simp add: dropWhile_trimRight)
      have q: "spec_internalRuns (c # cs) = CHR ''_'' # spec_internalRuns (dropWhile is_space cs)"
        using sp False by auto
      have ih: "filter is_ident
            (replaceSpaceRuns ''_'' (rev (dropWhile is_space (rev (dropWhile is_space cs)))))
          = filter is_ident (spec_internalRuns (dropWhile is_space cs))"
        using sp False by (rule "2.IH"(1))
      show ?thesis unfolding r q by (simp add: ih)
    qed
  qed
qed

lemma sanitizeColumnName_refines: "sanitizeColumnName nm = spec_sanitizedName nm"
proof -
  have "filter is_ident (takeWhile is_space (toLowerCase nm)) = []"
    by (rule filter_ident_spaces) (auto dest: set_takeWhileD)
  moreover have "filter is_ident (replaceSpaceRuns ''_'' (trim (toLowerCase nm)))
      = filter is_ident (spec_internalRuns (dropWhile is_space (toLowerCase nm)))"
    unfolding trim_def by (rule spec_internalRuns_refines)
  ultimately show ?thesis
    by (simp add: sanitizeColumnName_def spec_sanitizedName_def spec_underscoreInternalRuns_def
        toLowerCase_trim)
qed

lemma sanitizeColumnName_ident: "c \<in> set (sanitizeColumnName nm) \<Longrightarrow> is_ident c"
proof -
  assume "c \<in> set (sanitizeColumnName nm)"
  then have "c \<in> set (prefixLeadingDigit (filter is_ident
       (replaceSpaceRuns ''_'' (toLowerCase (trim nm)))))"
    unfolding sanitizeColumnName_def by (rule in_set_takeD)
  then show ?thesis
    by (auto simp: prefixLeadingDigit_def is_ident_def is_digit_def code_def
             split: list.splits if_splits)
qed

lemma sanitizeColumnName_no_leading_digit:
  "sanitizeColumnName nm \<noteq> [] \<Longrightarrow> \<not> is_digit (hd (sanitizeColumnName nm))"
  by (auto simp: sanitizeColumnName_def prefixLeadingDigit_def is_digit_def code_def
           split: list.splits if_splits)

lemma sanitizeColumnName_length: "length (sanitizeColumnName nm) \<le> 64"
  by (simp add: sanitizeColumnName_def)

text \<open>
  Claim C8. For every header, \<open>sanitizeColumnName\<close> returns what the specification's steps
  give: the lower-cased header with each internal run of white space replaced by one
  underscore, the characters outside \<open>[a-z0-9_]\<close> removed, \<open>col_\<close> put before a
  leading digit, cut to 64 characters. The result holds only characters of \<open>[a-z0-9_]\<close>,
  does not start with a digit, and is at most 64 characters long.
\<close>

theorem sanitizeColumnName_matches_spec:
  "sanitizeColumnName nm = spec_sanitizedName nm
   \<and> (\<forall>c\<in>set (sanitizeColumnName nm). is_ident c)
   \<and> (sanitizeColumnName nm \<noteq> [] \<longrightarrow> \<not> is_digit (hd (sanitizeColumnName nm)))
   \<and> length (sanitizeColumnName nm) \<le> 64"
  using sanitizeColumnName_refines [of nm] sanitizeColumnName_ident [of _ nm]
    sanitizeColumnName_no_leading_digit [of nm] sanitizeColumnName_length [of nm]
  by blast

theorem sanitizeColumnName_matches_spec_witness:
  "sanitizeColumnName '' 2nd  Place (km) '' = ''col_2nd_place_km''
   \<and> spec_sanitizedName '' 2nd  Place (km) '' = ''col_2nd_place_km''
   \<and> sanitizeColumnName '' 2nd  Place (km) '' \<noteq> []
   \<and> \<not> is_digit (hd (sanitizeColumnName '' 2nd  Place (km) ''))
   \<and> list_all is_ident (sanitizeColumnName '' 2nd  Place (km) '')
   \<and> length (sanitizeColumnName '' 2nd  Place (km) '') \<le> 64"
proof -
  have e: "sanitizeColumnName '' 2nd  Place (km) '' = ''col_2nd_place_km''"
    by code_simp
  note t = sanitizeColumnName_matches_spec [of "'' 2nd  Place (km) ''"]
  from t e have s: "spec_sanitizedName '' 2nd  Place (km) '' = ''col_2nd_place_km''"
    by metis
  from t s show ?thesis by (simp add: e list_all_iff)
qed

section \<open>What inferSchema infers\<close>

text \<open>Every column that \<open>inferSchema\<close> returns is \<open>VARCHAR\<close> or \<open>TEXT\<close>: the scan of a
  column starts from \<open>VARCHAR\<close>, and no merge can go below its starting type.\<close>

lemma scanCell_type: "fst acc \<in> {VARCHAR, TEXT} \<Longrightarrow> fst (scanCell i rw acc) \<in> {VARCHAR, TEXT}"
  by (cases "inferDataType (cleanValue (the (at rw i)))")
     (auto simp: scanCell_def Let_def mergeDataTypes_def split: option.splits)

lemma fold_scanCell_type:
  "fst acc \<in> {VARCHAR, TEXT} \<Longrightarrow> fst (fold (scanCell i) rws acc) \<in> {VARCHAR, TEXT}"
proof (induction rws arbitrary: acc)
  case Nil
  then show ?case by simp
next
  case (Cons r rws)
  from Cons.prems have "fst (scanCell i r acc) \<in> {VARCHAR, TEXT}"
    by (rule scanCell_type)
  then have "fst (fold (scanCell i) rws (scanCell i r acc)) \<in> {VARCHAR, TEXT}"
    by (rule Cons.IH)
  then show ?case by simp
qed

lemma inferColumn_type: "type (inferColumn rws i header) \<in> {VARCHAR, TEXT}"
  using fold_scanCell_type [of "(VARCHAR, 0)" i rws] by (simp add: inferColumn_def Let_def)

lemma inferSchema_types: "col \<in> set (inferSchema headers rws) \<Longrightarrow> type col \<in> {VARCHAR, TEXT}"
  using inferColumn_type by (auto simp: inferSchema_def)

lemma digit_not_space: "is_digit c \<Longrightarrow> \<not> is_space c"
  by (auto simp: is_digit_def is_space_def)

lemma all_digits_takeWhile: "list_all is_digit s \<Longrightarrow> takeWhile (isRadixDigit 10) s = s"
  by (induction s) (auto simp: isRadixDigit_def)

lemma all_digits_not_hex: "list_all is_digit s \<Longrightarrow> take 2 s \<noteq> ''0x'' \<and> take 2 s \<noteq> ''0X''"
  by (cases s; cases "tl s") (auto simp: is_digit_def code_def)

lemma parseInt_digits:
  "all_digits ds \<Longrightarrow> parseInt ds = Some (digitsValue 10 ds)"
  apply (cases ds)
   apply (simp add: all_digits_def)
  apply (frule all_digits_not_hex[OF conjunct2[OF iffD1[OF all_digits_def]]])
  apply (simp add: parseInt_def Let_def all_digits_def digit_not_space all_digits_takeWhile)
  apply (auto simp: is_digit_def code_def isRadixDigit_def all_digits_takeWhile)
  done

lemma digitsValue_append: "digitsValue 10 (ds @ [d]) = 10 * digitsValue 10 ds + digitValue d"
  by (simp add: digitsValue_def)

lemma parseInt_negative:
  "all_digits ds \<Longrightarrow> parseInt (CHR ''-'' # ds) = Some (- digitsValue 10 ds)"
  apply (cases ds)
   apply (simp add: all_digits_def)
  apply (frule all_digits_not_hex[OF conjunct2[OF iffD1[OF all_digits_def]]])
  apply (simp add: parseInt_def Let_def all_digits_def is_space_def code_def all_digits_takeWhile)
  apply (auto simp: is_digit_def code_def isRadixDigit_def all_digits_takeWhile)
  done

lemma parseInt_integer_shaped:
  "isIntegerShaped s \<Longrightarrow> parseInt s = Some (integerValue s)"
  by (cases s) (auto simp: isIntegerShaped_def integerValue_def parseInt_digits parseInt_negative
      split: if_splits)

lemma ascii_lower_letter:
  "ascii_lower c \<in> {CHR ''t'', CHR ''f'', CHR ''y'', CHR ''n''} \<Longrightarrow>
     \<not> is_digit c \<and> c \<noteq> CHR '','' \<and> c \<noteq> CHR ''-''"
  by (auto simp: ascii_lower_def is_digit_def code_def split: if_splits)

lemma boolean_word_not_integer:
  assumes "isBooleanWord t"
  shows "\<not> isIntegerShaped (removeCommas t)"
proof -
  from assms obtain c cs where t: "t = c # cs"
    and c: "ascii_lower c \<in> {CHR ''t'', CHR ''f'', CHR ''y'', CHR ''n''}"
    by (cases t) (auto simp: isBooleanWord_def)
  from ascii_lower_letter [OF c] show ?thesis
    by (simp add: t removeCommas_def isIntegerShaped_def all_digits_def)
qed

lemma inferDataType_integer_shaped:
  assumes "isIntegerShaped (removeCommas (trim v))"
  shows "inferDataType v =
          (if - 2147483648 \<le> integerValue (removeCommas (trim v))
              \<and> integerValue (removeCommas (trim v)) \<le> 2147483647
           then INT_T else BIGINT)"
proof -
  let ?t = "trim v"
  from assms have "?t \<noteq> []" "?t \<noteq> ''-''" "?t \<noteq> ''N/A''"
    by (auto simp: removeCommas_def isIntegerShaped_def all_digits_def is_digit_def code_def)
  moreover from assms have "\<not> isBooleanWord ?t"
    using boolean_word_not_integer by blast
  moreover note parseInt_integer_shaped [OF assms] assms
  ultimately show ?thesis
    by (auto simp: inferDataType_def Let_def)
qed

text \<open>
  Claim C5. The three cells \<open>"30"\<close>, \<open>"40"\<close> and \<open>"2147483648"\<close> are classified
  \<open>INT\<close>, \<open>INT\<close> and \<open>BIGINT\<close> one by one (\<open>inferDataType_integer_shaped\<close> above is
  the general statement), but \<open>inferSchema\<close> gives their column the type \<open>VARCHAR\<close> with
  \<open>maxLength\<close> 255, not \<open>BIGINT\<close>: the scan starts from \<open>VARCHAR\<close>, which
  \<open>mergeDataTypes\<close> ranks above every numeric type (\<open>inferSchema_types\<close>).
\<close>

theorem inferSchema_big_column_is_varchar:
  "map inferDataType [''30'', ''40'', ''2147483648''] = [INT_T, INT_T, BIGINT]
   \<and> inferSchema [''n''] [[''30''], [''40''], [''2147483648'']]
       = [\<lparr> name = ''n'', type = VARCHAR, maxLength = Some 255 \<rparr>]"
  by code_simp

text \<open>
  Claim C1. On the headers \<open>["Name","Age"]\<close> and the rows \<open>[["John","30"], ["",""]]\<close>,
  \<open>parseTable\<close> drops the empty second row and yields one row, but the column \<open>age\<close>
  is inferred as \<open>VARCHAR\<close> with \<open>maxLength\<close> 255 and the row carries the string
  \<open>"30"\<close>, not the type \<open>INT\<close> and the number 30. The result is the same when the
  header row comes first among the rows, as it does when the rows are read from a
  document: it is recognised and dropped.
\<close>

theorem parseTable_name_age_is_varchar:
  "parseTable [''Name'', ''Age''] [[''John'', ''30''], ['''', '''']]
     = \<lparr> schema = [\<lparr> name = ''name'', type = VARCHAR, maxLength = Some 255 \<rparr>,
                   \<lparr> name = ''age'', type = VARCHAR, maxLength = Some 255 \<rparr>],
         rows = [[(''name'', JString ''John''), (''age'', JString ''30'')]] \<rparr>
   \<and> parseTable [''Name'', ''Age''] [[''Name'', ''Age''], [''John'', ''30''], ['''', '''']]
     = \<lparr> schema = [\<lparr> name = ''name'', type = VARCHAR, maxLength = Some 255 \<rparr>,
                   \<lparr> name = ''age'', type = VARCHAR, maxLength = Some 255 \<rparr>],
         rows = [[(''name'', JString ''John''), (''age'', JString ''30'')]] \<rparr>"
  by code_simp

section \<open>DatabaseService.insertBatch\<close>

lemma nth_concat_fixed:
  "\<forall>xs\<in>set xss. length xs = m \<Longrightarrow> i < length xss \<Longrightarrow> j < m \<Longrightarrow>
     concat xss ! (i * m + j) = xss ! i ! j"
proof (induction xss arbitrary: i)
  case Nil
  then show ?case by simp
next
  case (Cons xs xss)
  show ?case
  proof (cases i)
    case 0
    with Cons.prems show ?thesis by (simp add: nth_append)
  next
    case (Suc i')
    with Cons.prems have "concat xss ! (i' * m + j) = xss ! i' ! j"
      by (intro Cons.IH) auto
    with Suc Cons.prems show ?thesis by (simp add: nth_append add.assoc)
  qed
qed

lemma length_concat_fixed:
  "\<forall>xs\<in>set xss. length xs = m \<Longrightarrow> length (concat xss) = length xss * m"
  by (induction xss) auto

lemma length_rowValues: "length (rowValues columns rw) = length columns"
  by (simp add: rowValues_def)

lemma insertColumns_set:
  "set (insertColumns rws) = {k. \<exists>v. map_of (hd rws) k = Some v \<and> v \<noteq> JUndefined}"
proof -
  have "k \<in> set (insertColumns rws) \<longleftrightarrow> (\<exists>v. map_of (hd rws) k = Some v \<and> v \<noteq> JUndefined)"
    for k
  proof (cases "map_of (hd rws) k")
    case None
    then have "k \<notin> fst ` set (hd rws)" by (simp add: map_of_eq_None_iff)
    with None show ?thesis by (simp add: insertColumns_def)
  next
    case (Some v)
    then have "k \<in> fst ` set (hd rws)" by (metis map_of_eq_None_iff option.distinct(1))
    with Some show ?thesis by (simp add: insertColumns_def getProperty_def)
  qed
  then show ?thesis by blast
qed

text \<open>
  Claim C6 as stated fails. In the batch \<open>[{a: 1}, {a: 2, b: 3}]\<close> the key \<open>b\<close> is present
  in the second row, and the one statement that \<open>insertBatch\<close> issues writes the column
  \<open>a\<close> only: the columns come from \<open>rows[0]\<close>.
\<close>

theorem insertBatch_later_key_not_written:
  "insertBatch [[(''a'', JNumber 1)], [(''a'', JNumber 2), (''b'', JNumber 3)]]
      \<lparr> isInitialized = True, connection = True, currentSchema_db = None, calls = [] \<rparr>
     = Inr \<lparr> isInitialized = True, connection = True, currentSchema_db = None,
             calls = [InsertInto [''a''] 2 [JNumber 1, JNumber 2]] \<rparr>
   \<and> ''b'' \<in> set (map fst [(''a'', JNumber 2), (''b'', JNumber 3)])
   \<and> ''b'' \<notin> set [''a'']"
  by (simp add: insertBatch_def insertColumns_def rowValues_def getProperty_def)

text \<open>
  Claim C6, amended. For every non-empty batch of row objects, a \<open>DatabaseService\<close> that
  is initialized and holds a connection issues exactly one \<open>INSERT\<close> request, with one
  tuple per given row. Its columns are the own keys of the first row, in the order of
  \<open>Object.keys\<close>, without those whose value there is \<open>undefined\<close>. The tuple of row
  \<open>i\<close> holds, for each of these columns, what \<open>row[col]\<close> reads in that row, with \<open>null\<close>
  in place of \<open>undefined\<close>; so a row that has no property of that name, neither its own
  nor one of \<open>Object.prototype\<close>, contributes \<open>null\<close>.
\<close>

theorem insertBatch_writes_first_row_columns:
  assumes "isInitialized db" and "connection db" and "rws \<noteq> []"
  shows "\<exists>vals.
      insertBatch rws db
        = Inr (db\<lparr> calls := calls db @ [InsertInto (insertColumns rws) (length rws) vals] \<rparr>)
      \<and> set (insertColumns rws) = {k. \<exists>v. map_of (hd rws) k = Some v \<and> v \<noteq> JUndefined}
      \<and> length vals = length rws * length (insertColumns rws)
      \<and> (\<forall>i < length rws. \<forall>j < length (insertColumns rws).
            vals ! (i * length (insertColumns rws) + j)
              = (if getProperty (rws ! i) (insertColumns rws ! j) = JUndefined then JNull
                 else getProperty (rws ! i) (insertColumns rws ! j))
            \<and> (map_of (rws ! i) (insertColumns rws ! j) = None
                 \<and> insertColumns rws ! j \<notin> set objectPrototypeKeys
               \<longrightarrow> vals ! (i * length (insertColumns rws) + j) = JNull)
            \<and> (\<forall>v. map_of (rws ! i) (insertColumns rws ! j) = Some v \<and> v \<noteq> JUndefined
               \<longrightarrow> vals ! (i * length (insertColumns rws) + j) = v))"
proof -
  let ?cols = "insertColumns rws"
  let ?vals = "concat (map (rowValues ?cols) rws)"
  have fixed: "\<forall>xs\<in>set (map (rowValues ?cols) rws). length xs = length ?cols"
    by (simp add: length_rowValues)
  have 1: "insertBatch rws db
      = Inr (db\<lparr> calls := calls db @ [InsertInto ?cols (length rws) ?vals] \<rparr>)"
    using assms by (simp add: insertBatch_def Let_def)
  have 2: "set ?cols = {k. \<exists>v. map_of (hd rws) k = Some v \<and> v \<noteq> JUndefined}"
    by (rule insertColumns_set)
  have 3: "length ?vals = length rws * length ?cols"
    using length_concat_fixed [OF fixed] by simp
  have 4: "?vals ! (i * length ?cols + j)
      = (if getProperty (rws ! i) (?cols ! j) = JUndefined then JNull
         else getProperty (rws ! i) (?cols ! j))"
    if "i < length rws" "j < length ?cols" for i j
  proof -
    have "?vals ! (i * length ?cols + j) = map (rowValues ?cols) rws ! i ! j"
      using fixed that by (intro nth_concat_fixed) simp_all
    also have "\<dots> = rowValues ?cols (rws ! i) ! j"
      using that by simp
    finally show ?thesis using that by (simp add: rowValues_def)
  qed
  have 5: "?vals ! (i * length ?cols + j) = JNull"
    if "i < length rws" "j < length ?cols"
      "map_of (rws ! i) (?cols ! j) = None \<and> ?cols ! j \<notin> set objectPrototypeKeys" for i j
    using 4 [OF that(1,2)] that(3) by (simp add: getProperty_def)
  have 6: "?vals ! (i * length ?cols + j) = v"
    if "i < length rws" "j < length ?cols"
      "map_of (rws ! i) (?cols ! j) = Some v \<and> v \<noteq> JUndefined" for i j v
    using 4 [OF that(1,2)] that(3) by (simp add: getProperty_def)
  from 1 2 3 4 5 6 show ?thesis by blast
qed

theorem insertBatch_writes_first_row_columns_witness:
  "insertBatch [[(''a'', JNumber 1), (''b'', JUndefined), (''toString'', JString ''t'')],
                [(''c'', JNumber 2), (''a'', JString ''x'')],
                []]
      \<lparr> isInitialized = True, connection = True, currentSchema_db = None, calls = [] \<rparr>
     = Inr \<lparr> isInitialized = True, connection = True, currentSchema_db = None,
             calls = [InsertInto [''a'', ''toString''] 3
                        [JNumber 1, JString ''t'',
                         JString ''x'', JInherited ''toString'',
                         JNull, JInherited ''toString'']] \<rparr>"
proof -
  let ?rws = "[[(''a'', JNumber 1), (''b'', JUndefined), (''toString'', JString ''t'')],
               [(''c'', JNumber 2), (''a'', JString ''x'')],
               []]"
  let ?db = "\<lparr> isInitialized = True, connection = True, currentSchema_db = None, calls = [] \<rparr>"
  have c: "insertColumns ?rws = [''a'', ''toString'']"
    by (simp add: insertColumns_def getProperty_def)
  obtain vals where
    r: "insertBatch ?rws ?db = Inr (?db\<lparr> calls := calls ?db @ [InsertInto (insertColumns ?rws) (length ?rws) vals] \<rparr>)"
    and l: "length vals = length ?rws * length (insertColumns ?rws)"
    and v: "\<forall>i < length ?rws. \<forall>j < length (insertColumns ?rws).
            vals ! (i * length (insertColumns ?rws) + j)
              = (if getProperty (?rws ! i) (insertColumns ?rws ! j) = JUndefined then JNull
                 else getProperty (?rws ! i) (insertColumns ?rws ! j))
            \<and> (map_of (?rws ! i) (insertColumns ?rws ! j) = None
                 \<and> insertColumns ?rws ! j \<notin> set objectPrototypeKeys
               \<longrightarrow> vals ! (i * length (insertColumns ?rws) + j) = JNull)
            \<and> (\<forall>v. map_of (?rws ! i) (insertColumns ?rws ! j) = Some v \<and> v \<noteq> JUndefined
               \<longrightarrow> vals ! (i * length (insertColumns ?rws) + j) = v)"
    using insertBatch_writes_first_row_columns [of ?db ?rws] by auto
  from l have len: "length vals = 6" by (simp add: c)
  from v [rule_format, of 0 0, THEN conjunct2, THEN conjunct2, rule_format, of "JNumber 1"]
  have v0: "vals ! 0 = JNumber 1" by (simp add: c)
  from v [rule_format, of 0 1, THEN conjunct2, THEN conjunct2, rule_format, of "JString ''t''"]
  have v1: "vals ! 1 = JString ''t''" by (simp add: c)
  from v [rule_format, of 1 0, THEN conjunct2, THEN conjunct2, rule_format, of "JString ''x''"]
  have v2: "vals ! 2 = JString ''x''" by (simp add: c eval_nat_numeral)
  from v [rule_format, of 1 1, THEN conjunct1]
  have v3: "vals ! 3 = JInherited ''toString''"
    by (simp add: c getProperty_def objectPrototypeKeys_def eval_nat_numeral)
  from v [rule_format, of 2 0, THEN conjunct2, THEN conjunct1]
  have v4: "vals ! 4 = JNull" by (simp add: c objectPrototypeKeys_def eval_nat_numeral)
  from v [rule_format, of 2 1, THEN conjunct1]
  have v5: "vals ! 5 = JInherited ''toString''"
    by (simp add: c getProperty_def objectPrototypeKeys_def eval_nat_numeral)
  have "vals = [JNumber 1, JString ''t'', JString ''x'', JInherited ''toString'', JNull,
                JInherited ''toString'']"
    using len v0 v1 v2 v3 v4 v5
    by (auto simp: list_eq_iff_nth_eq less_Suc_eq numeral_eq_Suc)
  with r c show ?thesis by simp
qed

section \<open>HttpService.fetchHtml\<close>

lemma fetchLoop_advance:
  "a \<le> k \<Longrightarrow> k \<le> maxRetries svc \<Longrightarrow>
   (\<forall>j. a \<le> j \<and> j < k \<longrightarrow> (\<exists>e. axiosGet j = Failed e \<and> isRetriableError e)) \<Longrightarrow>
   \<exists>l'. fetchLoop svc axiosGet a l acts
     = fetchLoop svc axiosGet k l'
         (acts @ concat (map (\<lambda>j. [Request j, Sleep (retryDelay svc * j)]) [a..<k]))"
proof (induction "k - a" arbitrary: a l acts)
  case 0
  then have "a = k" by simp
  then show ?case by auto
next
  case (Suc n)
  then have lt: "a < k" by simp
  with Suc.prems obtain e where e: "axiosGet a = Failed e" "isRetriableError e"
    by blast
  have step: "fetchLoop svc axiosGet a l acts
      = fetchLoop svc axiosGet (a + 1) (Some e) (acts @ [Request a, Sleep (retryDelay svc * a)])"
    using lt Suc.prems(2) e by (subst fetchLoop.simps) simp
  have "n = k - (a + 1)" using Suc.hyps(2) by simp
  moreover have "a + 1 \<le> k" using lt by simp
  moreover have "\<forall>j. a + 1 \<le> j \<and> j < k \<longrightarrow> (\<exists>e. axiosGet j = Failed e \<and> isRetriableError e)"
    using Suc.prems(3) by simp
  ultimately obtain l' where
    "fetchLoop svc axiosGet (a + 1) (Some e) (acts @ [Request a, Sleep (retryDelay svc * a)])
       = fetchLoop svc axiosGet k l'
           ((acts @ [Request a, Sleep (retryDelay svc * a)])
             @ concat (map (\<lambda>j. [Request j, Sleep (retryDelay svc * j)]) [a + 1..<k]))"
    using Suc.hyps(1) [of "a + 1" "Some e" "acts @ [Request a, Sleep (retryDelay svc * a)]"] Suc.prems(2)
    by blast
  moreover have "[a..<k] = a # [a + 1..<k]"
    using lt by (simp add: upt_conv_Cons)
  ultimately show ?case using step by auto
qed

lemma fetchLoop_requests:
  "length (filter isRequest (fst (fetchLoop svc axiosGet a l acts)))
     \<le> length (filter isRequest acts) + (maxRetries svc + 1 - a)"
proof (induction svc axiosGet a l acts rule: fetchLoop.induct)
  case (1 svc axiosGet attempt lastError acts)
  show ?case
  proof (cases "attempt \<le> maxRetries svc")
    case False
    then show ?thesis by (subst fetchLoop.simps) simp
  next
    case le: True
    show ?thesis
    proof (cases "axiosGet attempt")
      case (Fetched html)
      with le show ?thesis by (subst fetchLoop.simps) (simp add: isRequest_def)
    next
      case (Failed error)
      show ?thesis
      proof (cases "attempt \<noteq> maxRetries svc \<and> isRetriableError error")
        case False
        with le Failed show ?thesis
          by (subst fetchLoop.simps) (auto simp: isRequest_def)
      next
        case True
        with le Failed "1.IH" [of error] have
          "length (filter isRequest (fst (fetchLoop svc axiosGet (attempt + 1) (Some error)
              (acts @ [Request attempt, Sleep (retryDelay svc * attempt)]))))
           \<le> length (filter isRequest (acts @ [Request attempt, Sleep (retryDelay svc * attempt)]))
              + (maxRetries svc + 1 - (attempt + 1))"
          by simp
        with le Failed True show ?thesis
          by (subst fetchLoop.simps) (simp add: isRequest_def)
      qed
    qed
  qed
qed

text \<open>
  Claim C7. Let the service be initialized and let the requests \<open>1, ..., k - 1\<close> (with
  \<open>k \<le> maxRetries\<close>) each fail with a retriable error: no response (network error or
  timeout), a status of 500 or more, or 429. Then each of them is followed by a sleep of
  \<open>retryDelay * attempt\<close> and by the next request, and request \<open>k\<close> decides: a
  success returns the document; a non-retriable error (any status below 500 other than
  429, so every other 4xx) before the last attempt is rethrown at once, with no sleep and
  no further request; a failure of the last attempt \<open>k = maxRetries\<close> raises the terminal
  error that carries this last error. No run makes more than \<open>maxRetries\<close> requests.
\<close>

theorem fetchHtml_retry_policy:
  assumes "isInitialized svc"
    and "1 \<le> k" and "k \<le> maxRetries svc"
    and "\<forall>j. 1 \<le> j \<and> j < k \<longrightarrow> (\<exists>e. axiosGet j = Failed e \<and> isRetriableError e)"
  shows "(axiosGet k = Fetched html \<longrightarrow>
            fetchHtml svc axiosGet
              = (concat (map (\<lambda>j. [Request j, Sleep (retryDelay svc * j)]) [1..<k]) @ [Request k],
                 Inr html))
       \<and> (axiosGet k = Failed error \<and> \<not> isRetriableError error \<and> k < maxRetries svc \<longrightarrow>
            fetchHtml svc axiosGet
              = (concat (map (\<lambda>j. [Request j, Sleep (retryDelay svc * j)]) [1..<k]) @ [Request k],
                 Inl (AxiosFailure error)))
       \<and> (axiosGet k = Failed error \<and> k = maxRetries svc \<longrightarrow>
            fetchHtml svc axiosGet
              = (concat (map (\<lambda>j. [Request j, Sleep (retryDelay svc * j)]) [1..<k]) @ [Request k],
                 Inl (FetchFailed (maxRetries svc) (Some error))))
       \<and> length (filter isRequest (fst (fetchHtml svc axiosGet))) \<le> maxRetries svc
       \<and> isRetriableError NoResponse
       \<and> (isRetriableError (Response status) \<longleftrightarrow> status \<ge> 500 \<or> status = 429)"
proof -
  let ?pre = "concat (map (\<lambda>j. [Request j, Sleep (retryDelay svc * j)]) [1..<k])"
  from assms(2-4) obtain l' where
    adv: "fetchLoop svc axiosGet 1 None [] = fetchLoop svc axiosGet k l' ([] @ ?pre)"
    using fetchLoop_advance [of 1 k svc axiosGet None "[]"] by blast
  have a: "fetchHtml svc axiosGet = (?pre @ [Request k], Inr html)" if "axiosGet k = Fetched html"
    using assms(1,3) that adv by (simp add: fetchHtml_def fetchLoop.simps [of _ _ k])
  have b: "fetchHtml svc axiosGet = (?pre @ [Request k], Inl (AxiosFailure error))"
    if "axiosGet k = Failed error" "\<not> isRetriableError error" "k < maxRetries svc"
    using assms(1,3) that adv by (simp add: fetchHtml_def fetchLoop.simps [of _ _ k])
  have c: "fetchHtml svc axiosGet = (?pre @ [Request k], Inl (FetchFailed (maxRetries svc) (Some error)))"
    if "axiosGet k = Failed error" "k = maxRetries svc"
    using assms(1,3) that adv
    by (simp add: fetchHtml_def fetchLoop.simps [of _ _ "maxRetries svc"])
  have d: "length (filter isRequest (fst (fetchHtml svc axiosGet))) \<le> maxRetries svc"
    using fetchLoop_requests [of svc axiosGet 1 None "[]"] assms(1) by (simp add: fetchHtml_def)
  have e: "isRetriableError NoResponse"
    and f: "isRetriableError (Response status) \<longleftrightarrow> status \<ge> 500 \<or> status = 429"
    by (simp_all add: isRetriableError_def)
  from a b c d e f show ?thesis by blast
qed

theorem fetchHtml_retry_policy_witness:
  "fetchHtml \<lparr> isInitialized = True, maxRetries = 3, retryDelay = 1000, timeout = 10000 \<rparr>
       (\<lambda>k. if k = 1 then Failed NoResponse else if k = 2 then Failed (Response 503)
            else Failed (Response 429))
     = ([Request 1, Sleep 1000, Request 2, Sleep 2000, Request 3],
        Inl (FetchFailed 3 (Some (Response 429))))
   \<and> fetchHtml \<lparr> isInitialized = True, maxRetries = 3, retryDelay = 1000, timeout = 10000 \<rparr>
       (\<lambda>k. if k = 1 then Failed (Response 500) else Failed (Response 404))
     = ([Request 1, Sleep 1000, Request 2], Inl (AxiosFailure (Response 404)))
   \<and> fetchHtml \<lparr> isInitialized = True, maxRetries = 3, retryDelay = 1000, timeout = 10000 \<rparr>
       (\<lambda>k. if k = 1 then Failed (Response 429) else Fetched ''<table/>'')
     = ([Request 1, Sleep 1000, Request 2], Inr ''<table/>'')"
proof -
  let ?svc = "\<lparr> isInitialized = True, maxRetries = 3, retryDelay = 1000, timeout = 10000 \<rparr>"
  let ?g1 = "\<lambda>k::nat. if k = 1 then Failed NoResponse else if k = 2 then Failed (Response 503)
            else Failed (Response 429)"
  let ?g2 = "\<lambda>k::nat. if k = 1 then Failed (Response 500) else Failed (Response 404)"
  let ?g3 = "\<lambda>k::nat. if k = 1 then Failed (Response 429) else Fetched ''<table/>''"
  have u2: "[Suc 0..<2] = [Suc 0]" and u3: "[Suc 0..<3] = [Suc 0, 2]"
    by (simp_all add: upt_conv_Cons)
  have r: "\<forall>j. 1 \<le> j \<and> j < 3 \<longrightarrow> (\<exists>e. ?g1 j = Failed e \<and> isRetriableError e)"
    by (auto simp: isRetriableError_def)
  have r2: "\<forall>j. 1 \<le> j \<and> j < 2 \<longrightarrow> (\<exists>e. ?g2 j = Failed e \<and> isRetriableError e)"
    by (auto simp: isRetriableError_def)
  have r3: "\<forall>j. 1 \<le> j \<and> j < 2 \<longrightarrow> (\<exists>e. ?g3 j = Failed e \<and> isRetriableError e)"
    by (auto simp: isRetriableError_def)
  have 1: "fetchHtml ?svc ?g1 = ([Request 1, Sleep 1000, Request 2, Sleep 2000, Request 3],
        Inl (FetchFailed 3 (Some (Response 429))))"
    using fetchHtml_retry_policy [of ?svc 3 ?g1 "[]" "Response 429" 0, OF _ _ _ r]
    by (simp add: u3)
  have 2: "fetchHtml ?svc ?g2 = ([Request 1, Sleep 1000, Request 2], Inl (AxiosFailure (Response 404)))"
    using fetchHtml_retry_policy [of ?svc 2 ?g2 "[]" "Response 404" 0, OF _ _ _ r2]
    by (simp add: u2 isRetriableError_def)
  have 3: "fetchHtml ?svc ?g3 = ([Request 1, Sleep 1000, Request 2], Inr ''<table/>'')"
    using fetchHtml_retry_policy [of ?svc 2 ?g3 "''<table/>''" NoResponse 0, OF _ _ _ r3]
    by (simp add: u2)
  from 1 2 3 show ?thesis by simp
qed

section \<open>The consumer, one callback at a time\<close>

lemma andThen_Inr_iff: "andThen r f = Inr y \<longleftrightarrow> (\<exists>a. r = Inr a \<and> f a = Inr y)"
  by (cases r) (simp_all add: andThen_def)

lemma andThen_Inr [simp]: "andThen (Inr a) f = f a"
  by (simp add: andThen_def)

lemma andThen_Inl [simp]: "andThen (Inl e) f = Inl e"
  by (simp add: andThen_def)

subsection \<open>Calls of the database\<close>

lemma insertsNonEmpty_append:
  "insertsNonEmpty (cs @ ds) \<longleftrightarrow> insertsNonEmpty cs \<and> insertsNonEmpty ds"
  by (simp add: insertsNonEmpty_def)

lemma insertBatch_nonEmpty:
  "insertBatch rws db = Inr db' \<Longrightarrow> insertsNonEmpty (calls db) \<Longrightarrow> insertsNonEmpty (calls db')"
  by (auto simp: insertBatch_def Let_def insertsNonEmpty_def split: if_splits)

lemma createTable_nonEmpty:
  "createTable sch db = Inr db' \<Longrightarrow> insertsNonEmpty (calls db) \<Longrightarrow> insertsNonEmpty (calls db')"
  by (auto simp: createTable_def insertsNonEmpty_def split: if_splits)

lemma handleMessage_controller_nonEmpty:
  "handleMessage_controller sch rw ctl = Inr c' \<Longrightarrow> insertsNonEmpty (calls (databaseService ctl))
     \<Longrightarrow> insertsNonEmpty (calls (databaseService c'))"
  by (auto simp: handleMessage_controller_def andThen_Inr_iff dest: createTable_nonEmpty
           split: if_splits)

lemma batchHandler_nonEmpty:
  "batchHandler sch rw ctl = Inr c' \<Longrightarrow> insertsNonEmpty (calls (databaseService ctl))
     \<Longrightarrow> insertsNonEmpty (calls (databaseService c'))"
  by (auto simp: batchHandler_def andThen_Inr_iff Let_def split: if_splits)
     (blast dest: createTable_nonEmpty insertBatch_nonEmpty)+

lemma runHandler_nonEmpty:
  "runHandler h sch rw ctl = Inr c' \<Longrightarrow> insertsNonEmpty (calls (databaseService ctl))
     \<Longrightarrow> insertsNonEmpty (calls (databaseService c'))"
  by (cases h)
     (auto simp: runHandler_def dest: handleMessage_controller_nonEmpty batchHandler_nonEmpty)

lemma forEachRow_nonEmpty:
  "forEachRow h sch rws ctl = Inr c' \<Longrightarrow> insertsNonEmpty (calls (databaseService ctl))
     \<Longrightarrow> insertsNonEmpty (calls (databaseService c'))"
  by (induction rws arbitrary: ctl) (auto simp: andThen_Inr_iff dest: runHandler_nonEmpty)

lemma flushBuffer_nonEmpty:
  "flushBuffer ctl = Inr c' \<Longrightarrow> insertsNonEmpty (calls (databaseService ctl))
     \<Longrightarrow> insertsNonEmpty (calls (databaseService c'))"
  by (auto simp: flushBuffer_def Let_def andThen_Inr_iff dest: forEachRow_nonEmpty
           split: option.splits if_splits)

lemma handleMessage_nonEmpty:
  "handleMessage payload ctl = Inr c' \<Longrightarrow> insertsNonEmpty (calls (databaseService ctl))
     \<Longrightarrow> insertsNonEmpty (calls (databaseService c'))"
  by (cases payload)
     (auto simp: handleMessage_def Let_def dest!: flushBuffer_nonEmpty split: if_splits)

lemma periodicFlush_nonEmpty:
  "periodicFlush ctl = Inr c' \<Longrightarrow> insertsNonEmpty (calls (databaseService ctl))
     \<Longrightarrow> insertsNonEmpty (calls (databaseService c'))"
  by (auto simp: periodicFlush_def dest: flushBuffer_nonEmpty split: if_splits)

lemma batchTimer_nonEmpty:
  "batchTimer ctl = Inr c' \<Longrightarrow> insertsNonEmpty (calls (databaseService ctl))
     \<Longrightarrow> insertsNonEmpty (calls (databaseService c'))"
  by (auto simp: batchTimer_def andThen_Inr_iff dest: insertBatch_nonEmpty split: if_splits)

lemma step_nonEmpty:
  "step ev ctl = Inr c' \<Longrightarrow> insertsNonEmpty (calls (databaseService ctl))
     \<Longrightarrow> insertsNonEmpty (calls (databaseService c'))"
  by (cases ev)
     (auto simp: step_def dest: handleMessage_nonEmpty periodicFlush_nonEmpty batchTimer_nonEmpty)

lemma run_nonEmpty:
  "run evs ctl = Inr c' \<Longrightarrow> insertsNonEmpty (calls (databaseService ctl))
     \<Longrightarrow> insertsNonEmpty (calls (databaseService c'))"
  by (induction evs arbitrary: ctl) (auto simp: andThen_Inr_iff dest: step_nonEmpty)

lemma destroy_nonEmpty:
  "destroy ctl = Inr c' \<Longrightarrow> insertsNonEmpty (calls (databaseService ctl))
     \<Longrightarrow> insertsNonEmpty (calls (databaseService c'))"
  by (auto simp: destroy_def disconnect_def Let_def andThen_Inr_iff destroy_db_def
        insertsNonEmpty_append
      dest!: flushBuffer_nonEmpty split: if_splits)
     (simp_all add: insertsNonEmpty_def)

lemma started_eq:
  "started bs = Inr
     \<lparr> databaseService =
         \<lparr> isInitialized = True, connection = True, currentSchema_db = None, calls = [] \<rparr>,
       kafkaConsumer =
         \<lparr> isConnected = True, messageHandler = Some BatchHandler, messageBuffer = [],
           currentSchema = None, batchSize = bs \<rparr>,
       tableInitialized = False, messageBuffer_batch = [], batchCount = 0 \<rparr>"
  by (simp add: started_def start_def initialize_def newController_def initialize_db_def)


subsection \<open>The handlers leave the Kafka consumer alone\<close>

lemma runHandler_kafkaConsumer:
  "runHandler h sch rw ctl = Inr c' \<Longrightarrow> kafkaConsumer c' = kafkaConsumer ctl"
  by (cases h)
     (auto simp: runHandler_def handleMessage_controller_def batchHandler_def andThen_Inr_iff
        Let_def split: if_splits)

lemma forEachRow_kafkaConsumer:
  "forEachRow h sch rws ctl = Inr c' \<Longrightarrow> kafkaConsumer c' = kafkaConsumer ctl"
  by (induction rws arbitrary: ctl) (auto simp: andThen_Inr_iff dest: runHandler_kafkaConsumer)

subsection \<open>Creating the table\<close>

lemma createTable_ready:
  "isInitialized db \<Longrightarrow> connection db \<Longrightarrow>
     \<exists>db'. createTable sch db = Inr db' \<and> isInitialized db' \<and> connection db'
        \<and> calls db' = calls db @ [DropTable, createCallFor sch]"
  by (simp add: createTable_def createCallFor_def)

subsection \<open>Empty flushes\<close>

text \<open>
  Claim C9. A flush of an empty buffer does nothing: \<open>flushBuffer\<close> and the periodic
  callback of the Kafka consumer return the state unchanged when \<open>messageBuffer\<close> is
  empty, the periodic callback of the controller does so when its buffer is empty, and
  \<open>insertBatch\<close> with no rows returns before any request. In every state that the started
  consumer reaches through messages and timer callbacks, and after \<open>destroy\<close>, no \<open>INSERT\<close>
  with zero rows has been sent to the database.
\<close>

theorem empty_flush_writes_nothing:
  "(messageBuffer (kafkaConsumer ctl) = [] \<longrightarrow> flushBuffer ctl = Inr ctl \<and> periodicFlush ctl = Inr ctl)
   \<and> (messageBuffer_batch ctl = [] \<longrightarrow> batchTimer ctl = Inr ctl)
   \<and> (isInitialized db \<and> connection db \<longrightarrow> insertBatch [] db = Inr db)
   \<and> (started bs = Inr c0 \<and> run evs c0 = Inr c1 \<longrightarrow> insertsNonEmpty (calls (databaseService c1)))
   \<and> (started bs = Inr c0 \<and> run evs c0 = Inr c1 \<and> destroy c1 = Inr c2 \<longrightarrow>
        insertsNonEmpty (calls (databaseService c2)))"
proof (intro conjI impI)
  assume "messageBuffer (kafkaConsumer ctl) = []"
  then show "flushBuffer ctl = Inr ctl" "periodicFlush ctl = Inr ctl"
    by (simp_all add: flushBuffer_def periodicFlush_def Let_def split: option.splits)
next
  assume "messageBuffer_batch ctl = []"
  then show "batchTimer ctl = Inr ctl" by (simp add: batchTimer_def)
next
  assume "isInitialized db \<and> connection db"
  then show "insertBatch [] db = Inr db" by (simp add: insertBatch_def)
next
  assume a: "started bs = Inr c0 \<and> run evs c0 = Inr c1"
  then have "insertsNonEmpty (calls (databaseService c0))"
    by (auto simp: started_eq insertsNonEmpty_def)
  with a show "insertsNonEmpty (calls (databaseService c1))"
    by (blast intro: run_nonEmpty)
next
  assume a: "started bs = Inr c0 \<and> run evs c0 = Inr c1 \<and> destroy c1 = Inr c2"
  then have "insertsNonEmpty (calls (databaseService c0))"
    by (auto simp: started_eq insertsNonEmpty_def)
  with a show "insertsNonEmpty (calls (databaseService c2))"
    by (blast intro: run_nonEmpty destroy_nonEmpty)
qed

theorem empty_flush_writes_nothing_witness:
  "case started 1 of Inl e \<Rightarrow> False
   | Inr c0 \<Rightarrow>
       messageBuffer (kafkaConsumer c0) = [] \<and> messageBuffer_batch c0 = []
       \<and> flushBuffer c0 = Inr c0 \<and> periodicFlush c0 = Inr c0 \<and> batchTimer c0 = Inr c0
       \<and> isInitialized (databaseService c0) \<and> connection (databaseService c0)
       \<and> insertBatch [] (databaseService c0) = Inr (databaseService c0)
       \<and> (case run [Message (Parsed \<lparr> schema_km = Some [\<lparr> name = ''name'', type = VARCHAR,
                                                         maxLength = Some 255 \<rparr>],
                                      row = [(''name'', JString ''John'')],
                                      timestamp = 0, sourceUrl = ''u'' \<rparr>),
                     BatchTimer, PeriodicFlush, BatchTimer] c0 of
             Inl e \<Rightarrow> False
           | Inr c1 \<Rightarrow>
               calls (databaseService c1)
                 = [DropTable, CreateTable [(''name'', SQL_VARCHAR 255)],
                    InsertInto [''name''] 1 [JString ''John'']]
               \<and> insertsNonEmpty (calls (databaseService c1))
               \<and> (case destroy c1 of Inl e \<Rightarrow> False
                   | Inr c2 \<Rightarrow> insertsNonEmpty (calls (databaseService c2))))"
proof -
  let ?evs = "[Message (Parsed \<lparr> schema_km = Some [\<lparr> name = ''name'', type = VARCHAR,
                                                         maxLength = Some 255 \<rparr>],
                                      row = [(''name'', JString ''John'')],
                                      timestamp = 0, sourceUrl = ''u'' \<rparr>),
                     BatchTimer, PeriodicFlush, BatchTimer]"
  let ?c0 = "\<lparr> databaseService =
         \<lparr> isInitialized = True, connection = True, currentSchema_db = None, calls = [] \<rparr>,
       kafkaConsumer =
         \<lparr> isConnected = True, messageHandler = Some BatchHandler, messageBuffer = [],
           currentSchema = None, batchSize = 1 \<rparr>,
       tableInitialized = False, messageBuffer_batch = [], batchCount = 0 \<rparr>"
  have c0: "started 1 = Inr ?c0"
    by (rule started_eq)
  have r: "case run ?evs ?c0 of Inl e \<Rightarrow> False
           | Inr c1 \<Rightarrow> calls (databaseService c1)
                 = [DropTable, CreateTable [(''name'', SQL_VARCHAR 255)],
                    InsertInto [''name''] 1 [JString ''John'']]
               \<and> (case destroy c1 of Inl e \<Rightarrow> False | Inr c2 \<Rightarrow> True)"
    by code_simp
  then obtain c1 c2 where c1: "run ?evs ?c0 = Inr c1" "destroy c1 = Inr c2"
    and cs: "calls (databaseService c1)
                 = [DropTable, CreateTable [(''name'', SQL_VARCHAR 255)],
                    InsertInto [''name''] 1 [JString ''John'']]"
    by (auto split: sum.splits)
  from empty_flush_writes_nothing [of ?c0 "databaseService ?c0" 1 ?c0 ?evs c1 c2] c0 c1 cs
  show ?thesis by simp
qed

section \<open>The drain on shutdown\<close>

text \<open>While fewer than 100 rows have reached the handler of \<open>setupBatchProcessing\<close>, it
  only moves them into the controller's buffer. So a \<open>destroy\<close> that finds fewer than 100
  rows in the two buffers together writes no row and leaves them all in the controller's
  buffer, with the connection closed.\<close>

lemma batchHandler_below_threshold:
  assumes "dbReady ctl" and "length (messageBuffer_batch ctl) + 1 < 100"
  shows "\<exists>c'. batchHandler sch rw ctl = Inr c' \<and> dbReady c'
           \<and> messageBuffer_batch c' = messageBuffer_batch ctl @ [rw]
           \<and> rowsWritten (calls (databaseService c')) = rowsWritten (calls (databaseService ctl))"
proof (cases "tableInitialized ctl")
  case True
  with assms show ?thesis by (simp add: batchHandler_def Let_def dbReady_def)
next
  case False
  from assms(1) obtain db' where "createTable sch (databaseService ctl) = Inr db'"
    "isInitialized db'" "connection db'"
    "calls db' = calls (databaseService ctl) @ [DropTable, createCallFor sch]"
    using createTable_ready [of "databaseService ctl" sch] by (auto simp: dbReady_def)
  with False assms show ?thesis
    by (simp add: batchHandler_def Let_def dbReady_def rowsWritten_def createCallFor_def)
qed

lemma forEachRow_below_threshold:
  assumes "dbReady ctl" and "length (messageBuffer_batch ctl) + length rws < 100"
  shows "\<exists>c'. forEachRow BatchHandler sch rws ctl = Inr c' \<and> dbReady c'
           \<and> messageBuffer_batch c' = messageBuffer_batch ctl @ rws
           \<and> rowsWritten (calls (databaseService c')) = rowsWritten (calls (databaseService ctl))"
  using assms
proof (induction rws arbitrary: ctl)
  case Nil
  then show ?case by simp
next
  case (Cons rw rws)
  from Cons.prems have "length (messageBuffer_batch ctl) + 1 < 100" by simp
  from batchHandler_below_threshold [OF Cons.prems(1) this, of sch rw]
  obtain c1 where c1: "batchHandler sch rw ctl = Inr c1" "dbReady c1"
    "messageBuffer_batch c1 = messageBuffer_batch ctl @ [rw]"
    "rowsWritten (calls (databaseService c1)) = rowsWritten (calls (databaseService ctl))"
    by blast
  with Cons.prems have "length (messageBuffer_batch c1) + length rws < 100" by simp
  from Cons.IH [OF c1(2) this] c1 show ?case
    by (auto simp: runHandler_def)
qed

lemma destroy_below_threshold:
  assumes "dbReady ctl" and "isConnected (kafkaConsumer ctl)"
    and "messageHandler (kafkaConsumer ctl) = Some BatchHandler"
    and "currentSchema (kafkaConsumer ctl) = Some sch"
    and "messageBuffer (kafkaConsumer ctl) \<noteq> []"
    and "length (messageBuffer_batch ctl) + length (messageBuffer (kafkaConsumer ctl)) < 100"
  shows "\<exists>c'. destroy ctl = Inr c'
           \<and> rowsWritten (calls (databaseService c')) = rowsWritten (calls (databaseService ctl))
           \<and> messageBuffer_batch c' = messageBuffer_batch ctl @ messageBuffer (kafkaConsumer ctl)
           \<and> messageBuffer (kafkaConsumer c') = []
           \<and> \<not> connection (databaseService c') \<and> \<not> isConnected (kafkaConsumer c')"
proof -
  from forEachRow_below_threshold [OF assms(1,6), of sch]
  obtain c1 where c1: "forEachRow BatchHandler sch (messageBuffer (kafkaConsumer ctl)) ctl = Inr c1"
    "dbReady c1" "messageBuffer_batch c1 = messageBuffer_batch ctl @ messageBuffer (kafkaConsumer ctl)"
    "rowsWritten (calls (databaseService c1)) = rowsWritten (calls (databaseService ctl))"
    by blast
  from c1(1) have k: "kafkaConsumer c1 = kafkaConsumer ctl"
    by (rule forEachRow_kafkaConsumer)
  have f: "flushBuffer ctl = Inr (c1\<lparr> kafkaConsumer := (kafkaConsumer c1)\<lparr> messageBuffer := [] \<rparr> \<rparr>)"
    using assms(3,4,5) c1(1) by (simp add: flushBuffer_def)
  show ?thesis
    using assms(2,3,4,5) f c1(2,3,4) k
    by (simp add: destroy_def disconnect_def destroy_db_def dbReady_def rowsWritten_def)
qed

text \<open>
  Claim C3. The started consumer (threshold 100) receives 37 messages and is destroyed.
  Before \<open>destroy\<close> the 37 rows are in the buffer of the Kafka consumer and nothing has
  been sent to the database. \<open>destroy\<close> hands the rows to the handler, which creates the
  table and only appends them to the controller's own buffer, as 37 is below 100; the
  connection is then closed. No \<open>INSERT\<close> is ever sent, and the 37 rows are left in the
  controller's buffer (\<open>destroy_below_threshold\<close> above says so for every number of rows
  below 100).
\<close>

theorem shutdown_with_37_buffered_rows_writes_none:
  "andThen (started 100)
     (\<lambda>c0. andThen (run (replicate 37 (Message (Parsed
                \<lparr> schema_km = Some [\<lparr> name = ''name'', type = VARCHAR, maxLength = Some 255 \<rparr>],
                  row = [(''name'', JString ''John'')], timestamp = 0, sourceUrl = ''u'' \<rparr>))) c0)
     (\<lambda>c1. andThen (destroy c1)
     (\<lambda>c2. Inr (length (messageBuffer (kafkaConsumer c1)), length (messageBuffer_batch c1),
               calls (databaseService c1),
               calls (databaseService c2), length (messageBuffer_batch c2),
               length (messageBuffer (kafkaConsumer c2)),
               connection (databaseService c2), isConnected (kafkaConsumer c2)))))
   = Inr (37, 0, [],
          [DropTable, CreateTable [(''name'', SQL_VARCHAR 255)], EndConnection], 37, 0,
          False, False)"
  by code_simp

section \<open>Flushes that overlap, and flushes that do not\<close>

lemma turns_Cons [simp]: "turns (t # ts) st = turns ts (turn t st)"
  by (simp add: turns_def)

lemma turns_Nil [simp]: "turns [] st = st"
  by (simp add: turns_def)







section \<open>The session schema\<close>

lemma turn_currentSchema:
  "currentSchema_o (turn t st)
     = (case currentSchema_o st of
          Some s \<Rightarrow> Some s
        | None \<Rightarrow> (case t of Receive sch rw \<Rightarrow> sch | _ \<Rightarrow> None))"
  by (cases t)
     (auto simp: turn_def handleMessage_enter_def flushBuffer_enter_def timer_fires_def
        onDisconnect_enter_def flushBuffer_resume_def flushBuffer_throws_def Let_def
        split: option.splits)

lemma firstSchema_Cons:
  "firstSchema (t # ts) = (case t of Receive (Some s) rw \<Rightarrow> Some s | _ \<Rightarrow> firstSchema ts)"
  by (cases t) (auto split: option.splits)

lemma turns_currentSchema:
  "currentSchema_o (turns ts st)
     = (case currentSchema_o st of None \<Rightarrow> firstSchema ts | Some s \<Rightarrow> Some s)"
proof (induction ts arbitrary: st)
  case Nil
  then show ?case by (simp split: option.splits)
next
  case (Cons t ts)
  show ?case
    by (simp add: Cons.IH turn_currentSchema firstSchema_Cons
          split: option.splits Turn.splits)
qed

lemma turn_withoutSchema:
  "currentSchema_o st = Some s \<Longrightarrow> turn (withoutSchema t) st = turn t st"
  by (cases t) (simp_all add: turn_def withoutSchema_def handleMessage_enter_def)

lemma turns_withoutSchema:
  "currentSchema_o st = Some s \<Longrightarrow> turns (map withoutSchema ts) st = turns ts st"
proof (induction ts arbitrary: st)
  case Nil
  then show ?case by simp
next
  case (Cons t ts)
  from Cons.prems have "currentSchema_o (turn t st) = Some s"
    by (simp add: turn_currentSchema)
  then have "turns (map withoutSchema ts) (turn t st) = turns ts (turn t st)"
    by (rule Cons.IH)
  with Cons.prems show ?case by (simp add: turn_withoutSchema)
qed

lemma turn_handlerCalls:
  "\<exists>new. handlerCalls (turn t st) = handlerCalls st @ new
     \<and> list_all (\<lambda>c. Some (fst c) = currentSchema_o (turn t st)) new"
  by (cases t)
     (auto simp: turn_def handleMessage_enter_def flushBuffer_enter_def timer_fires_def
        onDisconnect_enter_def flushBuffer_resume_def flushBuffer_throws_def Let_def
        split: option.splits)

lemma turns_handlerCalls:
  "\<exists>new. handlerCalls (turns ts st) = handlerCalls st @ new
     \<and> list_all (\<lambda>c. Some (fst c) = currentSchema_o (turns ts st)) new"
proof (induction ts arbitrary: st)
  case Nil
  then show ?case by simp
next
  case (Cons t ts)
  from turn_handlerCalls [of t st] obtain new1 where
    n1: "handlerCalls (turn t st) = handlerCalls st @ new1"
    "list_all (\<lambda>c. Some (fst c) = currentSchema_o (turn t st)) new1" by blast
  from Cons.IH [of "turn t st"] obtain new2 where
    n2: "handlerCalls (turns ts (turn t st)) = handlerCalls (turn t st) @ new2"
    "list_all (\<lambda>c. Some (fst c) = currentSchema_o (turns ts (turn t st))) new2" by blast
  have "list_all (\<lambda>c. Some (fst c) = currentSchema_o (turns ts (turn t st))) new1"
  proof (cases "currentSchema_o (turn t st)")
    case None
    with n1(2) have "new1 = []" by (cases new1) simp_all
    then show ?thesis by simp
  next
    case (Some s)
    then have "currentSchema_o (turns ts (turn t st)) = Some s"
      by (simp add: turns_currentSchema)
    with n1(2) Some show ?thesis by simp
  qed
  with n1(1) n2 have "handlerCalls (turns (t # ts) st) = handlerCalls st @ (new1 @ new2)
     \<and> list_all (\<lambda>c. Some (fst c) = currentSchema_o (turns (t # ts) st)) (new1 @ new2)"
    by simp
  then show ?case by blast
qed

lemma receive_buffers_row:
  "messageBuffer_ref st < length (arrays st) \<Longrightarrow>
     buffer (turn (Receive sch rw) st) = buffer st @ [rw]"
  by (simp add: turn_def handleMessage_enter_def flushBuffer_enter_def buffer_def Let_def
        split: option.splits)

lemma insertBatch_createCalls:
  "insertBatch rws db = Inr db' \<Longrightarrow> createCalls (calls db') = createCalls (calls db)"
  by (auto simp: insertBatch_def Let_def createCalls_def split: if_splits)

lemma createTable_createCalls:
  "createTable sch db = Inr db' \<Longrightarrow>
     createCalls (calls db') = createCalls (calls db) @ [createCallFor sch]"
  by (auto simp: createTable_def createCalls_def createCallFor_def split: if_splits)

lemma batchHandler_created:
  "batchHandler sch rw ctl = Inr c' \<Longrightarrow> tableInitialized ctl \<Longrightarrow>
     createCalls (calls (databaseService c')) = createCalls (calls (databaseService ctl))
     \<and> tableInitialized c'"
  by (auto simp: batchHandler_def andThen_Inr_iff Let_def dest!: insertBatch_createCalls
        split: if_splits)

lemma batchHandler_creates:
  "batchHandler sch rw ctl = Inr c' \<Longrightarrow> \<not> tableInitialized ctl \<Longrightarrow>
     createCalls (calls (databaseService c'))
       = createCalls (calls (databaseService ctl)) @ [createCallFor sch]
     \<and> tableInitialized c'"
  by (auto simp: batchHandler_def andThen_Inr_iff Let_def
        dest!: insertBatch_createCalls createTable_createCalls split: if_splits)


text \<open>
  Claim C10 as stated fails, in two places. The session schema is not determined by the
  first message: an empty broker message is parsed as \<open>{}\<close>, which carries no schema;
  \<open>handleMessage\<close> buffers its \<open>undefined\<close> row, \<open>currentSchema\<close> stays \<open>null\<close>, and it
  is the second message that sets it. And a row that arrives with another schema is not
  written under the first schema: when such a row is the first of its batch, the \<open>INSERT\<close>
  that \<open>insertBatch\<close> sends names the columns of that row. Below, the table was created
  with the one column \<open>name\<close>, and the last request is an \<open>INSERT\<close> into the column
  \<open>price\<close>.
\<close>

theorem first_message_does_not_fix_session_schema:
  "currentSchema_o (turns [Receive None None] (consuming 100)) = None
   \<and> buffer (turns [Receive None None] (consuming 100)) = [None]
   \<and> currentSchema_o (turns
        [Receive None None,
         Receive (Some [\<lparr> name = ''price'', type = VARCHAR, maxLength = Some 255 \<rparr>])
                 (Some [(''price'', JString ''9.5'')])] (consuming 100))
       = Some [\<lparr> name = ''price'', type = VARCHAR, maxLength = Some 255 \<rparr>]
   \<and> (case started 100 of Inl e \<Rightarrow> False
       | Inr c0 \<Rightarrow>
          (case run [Message (Parsed \<lparr> schema_km = Some [\<lparr> name = ''name'', type = VARCHAR,
                                                            maxLength = Some 255 \<rparr>],
                                        row = [(''name'', JString ''John'')],
                                        timestamp = 0, sourceUrl = ''u'' \<rparr>),
                     PeriodicFlush, BatchTimer,
                     Message (Parsed \<lparr> schema_km = Some [\<lparr> name = ''price'', type = VARCHAR,
                                                            maxLength = Some 255 \<rparr>],
                                        row = [(''price'', JString ''9.5'')],
                                        timestamp = 1, sourceUrl = ''v'' \<rparr>),
                     PeriodicFlush, BatchTimer] c0 of
             Inl e \<Rightarrow> False
           | Inr c1 \<Rightarrow>
               currentSchema (kafkaConsumer c1)
                 = Some [\<lparr> name = ''name'', type = VARCHAR, maxLength = Some 255 \<rparr>]
               \<and> calls (databaseService c1)
                   = [DropTable, CreateTable [(''name'', SQL_VARCHAR 255)],
                      InsertInto [''name''] 1 [JString ''John''],
                      InsertInto [''price''] 1 [JString ''9.5'']]))"
proof -
  have "started 100 = Inr
     \<lparr> databaseService =
         \<lparr> isInitialized = True, connection = True, currentSchema_db = None, calls = [] \<rparr>,
       kafkaConsumer =
         \<lparr> isConnected = True, messageHandler = Some BatchHandler, messageBuffer = [],
           currentSchema = None, batchSize = 100 \<rparr>,
       tableInitialized = False, messageBuffer_batch = [], batchCount = 0 \<rparr>"
    by (rule started_eq)
  moreover have "case run [Message (Parsed \<lparr> schema_km = Some [\<lparr> name = ''name'', type = VARCHAR,
                                                            maxLength = Some 255 \<rparr>],
                                        row = [(''name'', JString ''John'')],
                                        timestamp = 0, sourceUrl = ''u'' \<rparr>),
                     PeriodicFlush, BatchTimer,
                     Message (Parsed \<lparr> schema_km = Some [\<lparr> name = ''price'', type = VARCHAR,
                                                            maxLength = Some 255 \<rparr>],
                                        row = [(''price'', JString ''9.5'')],
                                        timestamp = 1, sourceUrl = ''v'' \<rparr>),
                     PeriodicFlush, BatchTimer]
       \<lparr> databaseService =
         \<lparr> isInitialized = True, connection = True, currentSchema_db = None, calls = [] \<rparr>,
       kafkaConsumer =
         \<lparr> isConnected = True, messageHandler = Some BatchHandler, messageBuffer = [],
           currentSchema = None, batchSize = 100 \<rparr>,
       tableInitialized = False, messageBuffer_batch = [], batchCount = 0 \<rparr> of
             Inl e \<Rightarrow> False
           | Inr c1 \<Rightarrow>
               currentSchema (kafkaConsumer c1)
                 = Some [\<lparr> name = ''name'', type = VARCHAR, maxLength = Some 255 \<rparr>]
               \<and> calls (databaseService c1)
                   = [DropTable, CreateTable [(''name'', SQL_VARCHAR 255)],
                      InsertInto [''name''] 1 [JString ''John''],
                      InsertInto [''price''] 1 [JString ''9.5'']]"
    by code_simp
  moreover have "currentSchema_o (turns [Receive None None] (consuming 100)) = None"
    "buffer (turns [Receive None None] (consuming 100)) = [None]"
    "currentSchema_o (turns
        [Receive None None,
         Receive (Some [\<lparr> name = ''price'', type = VARCHAR, maxLength = Some 255 \<rparr>])
                 (Some [(''price'', JString ''9.5'')])] (consuming 100))
       = Some [\<lparr> name = ''price'', type = VARCHAR, maxLength = Some 255 \<rparr>]"
    by code_simp+
  ultimately show ?thesis
    by (simp only: sum.case)
qed

text \<open>
  Claim C10, amended. The session schema is the schema of the first message that carries
  one: \<open>currentSchema\<close> is assigned only while it is \<open>null\<close>, and once it is set nothing
  changes it, whatever messages arrive, timers fire, disconnect requests come and handler
  calls return or throw, in whatever order. Every call of the handler passes the session
  schema. Once the session schema is set, no message's schema is read: the consumer goes
  on exactly as it does when every later message carries no schema at all. Every
  message's row is appended to the buffer, whatever schema the message carries. A call of
  the handler of \<open>setupBatchProcessing\<close> that returns has sent no \<open>CREATE TABLE\<close> if it
  found \<open>tableInitialized\<close> set, and one, for the schema it was handed, if it found it
  unset; \<open>tableInitialized\<close> is set when it returns. Nothing is said on whether a row
  that came with another schema is written.
\<close>

theorem session_schema_is_first_schema_received:
  "currentSchema_o (turns ts (consuming bs)) = firstSchema ts
   \<and> list_all (\<lambda>c. Some (fst c) = firstSchema ts) (handlerCalls (turns ts (consuming bs)))
   \<and> currentSchema_o (turns ts st)
       = (case currentSchema_o st of None \<Rightarrow> firstSchema ts | Some s \<Rightarrow> Some s)
   \<and> (\<exists>new. handlerCalls (turns ts st) = handlerCalls st @ new
         \<and> list_all (\<lambda>c. Some (fst c) = currentSchema_o (turns ts st)) new)
   \<and> (currentSchema_o st \<noteq> None \<longrightarrow> turns (map withoutSchema ts) st = turns ts st)
   \<and> (messageBuffer_ref st < length (arrays st) \<longrightarrow>
        buffer (turn (Receive sch rw) st) = buffer st @ [rw])
   \<and> (batchHandler sch' rw' ctl = Inr c' \<longrightarrow>
        tableInitialized c'
        \<and> createCalls (calls (databaseService c'))
            = createCalls (calls (databaseService ctl))
                @ (if tableInitialized ctl then [] else [createCallFor sch']))"
proof (intro conjI impI)
  show "currentSchema_o (turns ts (consuming bs)) = firstSchema ts"
    by (simp add: turns_currentSchema consuming_def)
next
  from turns_handlerCalls [of ts "consuming bs"]
  show "list_all (\<lambda>c. Some (fst c) = firstSchema ts) (handlerCalls (turns ts (consuming bs)))"
    by (auto simp: turns_currentSchema consuming_def)
next
  show "currentSchema_o (turns ts st)
     = (case currentSchema_o st of None \<Rightarrow> firstSchema ts | Some s \<Rightarrow> Some s)"
    by (rule turns_currentSchema)
next
  show "\<exists>new. handlerCalls (turns ts st) = handlerCalls st @ new
         \<and> list_all (\<lambda>c. Some (fst c) = currentSchema_o (turns ts st)) new"
    by (rule turns_handlerCalls)
next
  assume "currentSchema_o st \<noteq> None"
  then show "turns (map withoutSchema ts) st = turns ts st"
    by (auto intro: turns_withoutSchema)
next
  assume "messageBuffer_ref st < length (arrays st)"
  then show "buffer (turn (Receive sch rw) st) = buffer st @ [rw]"
    by (rule receive_buffers_row)
next
  assume b: "batchHandler sch' rw' ctl = Inr c'"
  then show "tableInitialized c'"
    by (cases "tableInitialized ctl") (auto dest: batchHandler_created batchHandler_creates)
next
  assume b: "batchHandler sch' rw' ctl = Inr c'"
  then show "createCalls (calls (databaseService c'))
            = createCalls (calls (databaseService ctl))
                @ (if tableInitialized ctl then [] else [createCallFor sch'])"
    by (cases "tableInitialized ctl") (auto dest: batchHandler_created batchHandler_creates)
qed

theorem session_schema_is_first_schema_received_witness:
  "currentSchema_o (turns
      [Receive None None,
       Receive (Some [\<lparr> name = ''name'', type = VARCHAR, maxLength = Some 255 \<rparr>]) (Some [(''name'', JString ''John'')]),
       HandlerReturns 0, HandlerReturns 0,
       Receive (Some [\<lparr> name = ''price'', type = FLOAT, maxLength = None \<rparr>]) (Some [(''price'', JParseFloat ''9.5'')]),
       TimerFires, HandlerReturns 0] (consuming 2))
     = Some [\<lparr> name = ''name'', type = VARCHAR, maxLength = Some 255 \<rparr>]
   \<and> handlerCalls (turns
      [Receive None None,
       Receive (Some [\<lparr> name = ''name'', type = VARCHAR, maxLength = Some 255 \<rparr>]) (Some [(''name'', JString ''John'')]),
       HandlerReturns 0, HandlerReturns 0,
       Receive (Some [\<lparr> name = ''price'', type = FLOAT, maxLength = None \<rparr>]) (Some [(''price'', JParseFloat ''9.5'')]),
       TimerFires, HandlerReturns 0] (consuming 2))
     = [([\<lparr> name = ''name'', type = VARCHAR, maxLength = Some 255 \<rparr>], None),
        ([\<lparr> name = ''name'', type = VARCHAR, maxLength = Some 255 \<rparr>], Some [(''name'', JString ''John'')]),
        ([\<lparr> name = ''name'', type = VARCHAR, maxLength = Some 255 \<rparr>], Some [(''price'', JParseFloat ''9.5'')])]
   \<and> currentSchema_o (turns [Receive (Some [\<lparr> name = ''name'', type = VARCHAR, maxLength = Some 255 \<rparr>]) (Some [(''name'', JString ''John'')])] (consuming 2))
       = Some [\<lparr> name = ''name'', type = VARCHAR, maxLength = Some 255 \<rparr>]
   \<and> turns [Receive None (Some [(''price'', JParseFloat ''9.5'')]), HandlerReturns 0, HandlerReturns 0]
        (turns [Receive (Some [\<lparr> name = ''name'', type = VARCHAR, maxLength = Some 255 \<rparr>]) (Some [(''name'', JString ''John'')])] (consuming 2))
       = turns [Receive (Some [\<lparr> name = ''price'', type = FLOAT, maxLength = None \<rparr>]) (Some [(''price'', JParseFloat ''9.5'')]),
                HandlerReturns 0, HandlerReturns 0]
           (turns [Receive (Some [\<lparr> name = ''name'', type = VARCHAR, maxLength = Some 255 \<rparr>]) (Some [(''name'', JString ''John'')])] (consuming 2))
   \<and> buffer (turn (Receive (Some [\<lparr> name = ''price'', type = FLOAT, maxLength = None \<rparr>]) (Some [(''price'', JParseFloat ''9.5'')]))
               (turns [Receive (Some [\<lparr> name = ''name'', type = VARCHAR, maxLength = Some 255 \<rparr>]) (Some [(''name'', JString ''John'')])] (consuming 2)))
       = [Some [(''name'', JString ''John'')], Some [(''price'', JParseFloat ''9.5'')]]
   \<and> (case batchHandler [\<lparr> name = ''name'', type = VARCHAR, maxLength = Some 255 \<rparr>] [(''name'', JString ''John'')]
             \<lparr> databaseService =
                 \<lparr> isInitialized = True, connection = True, currentSchema_db = None, calls = [] \<rparr>,
               kafkaConsumer =
                 \<lparr> isConnected = True, messageHandler = Some BatchHandler, messageBuffer = [],
                   currentSchema = None, batchSize = 100 \<rparr>,
               tableInitialized = False, messageBuffer_batch = [], batchCount = 0 \<rparr> of
         Inl e \<Rightarrow> False
       | Inr c' \<Rightarrow>
           tableInitialized c'
           \<and> createCalls (calls (databaseService c')) = [createCallFor [\<lparr> name = ''name'', type = VARCHAR, maxLength = Some 255 \<rparr>]]
           \<and> (case batchHandler [\<lparr> name = ''price'', type = FLOAT, maxLength = None \<rparr>] [(''price'', JParseFloat ''9.5'')] c' of
                 Inl e \<Rightarrow> False
               | Inr c'' \<Rightarrow>
                   createCalls (calls (databaseService c'')) = [createCallFor [\<lparr> name = ''name'', type = VARCHAR, maxLength = Some 255 \<rparr>]]))"
proof -
  let ?A = "[\<lparr> name = ''name'', type = VARCHAR, maxLength = Some 255 \<rparr>]"
  let ?B = "[\<lparr> name = ''price'', type = FLOAT, maxLength = None \<rparr>]"
  let ?rA = "[(''name'', JString ''John'')]"
  let ?rB = "[(''price'', JParseFloat ''9.5'')]"
  let ?T = "[Receive None None, Receive (Some ?A) (Some ?rA), HandlerReturns 0, HandlerReturns 0,
             Receive (Some ?B) (Some ?rB), TimerFires, HandlerReturns 0]"
  let ?st1 = "turns [Receive (Some ?A) (Some ?rA)] (consuming 2)"
  let ?ts2 = "[Receive (Some ?B) (Some ?rB), HandlerReturns 0, HandlerReturns 0]"
  let ?c0 = "\<lparr> databaseService =
                 \<lparr> isInitialized = True, connection = True, currentSchema_db = None, calls = [] \<rparr>,
               kafkaConsumer =
                 \<lparr> isConnected = True, messageHandler = Some BatchHandler, messageBuffer = [],
                   currentSchema = None, batchSize = 100 \<rparr>,
               tableInitialized = False, messageBuffer_batch = [], batchCount = 0 \<rparr>"
  note t1 = session_schema_is_first_schema_received [where ts = ?T and bs = 2]
  have fs: "firstSchema ?T = Some ?A"
    by simp
  note a1 = t1 [THEN conjunct1, unfolded fs]
  from t1 [THEN conjunct2, THEN conjunct1]
  have a2: "list_all (\<lambda>c. fst c = ?A) (handlerCalls (turns ?T (consuming 2)))"
    by (simp only: fs option.inject)
  have a3: "map snd (handlerCalls (turns ?T (consuming 2))) = [None, Some ?rA, Some ?rB]"
    by code_simp
  have a4: "handlerCalls (turns ?T (consuming 2)) = [(?A, None), (?A, Some ?rA), (?A, Some ?rB)]"
  proof -
    have "cs = map (Pair ?A) (map snd cs)" if "list_all (\<lambda>c. fst c = ?A) cs"
      for cs :: "(TableSchema \<times> Buffered) list"
      using that by (induction cs) auto
    from this [OF a2] show ?thesis
      unfolding a3 by simp
  qed
  have h1: "currentSchema_o ?st1 = Some ?A" and h2: "messageBuffer_ref ?st1 < length (arrays ?st1)"
    and h3: "buffer ?st1 = [Some ?rA]"
    by code_simp+
  have ne: "currentSchema_o ?st1 \<noteq> None"
    by (simp only: h1) simp
  have m: "map withoutSchema ?ts2 = [Receive None (Some ?rB), HandlerReturns 0, HandlerReturns 0]"
    by (simp add: withoutSchema_def)
  note t2 = session_schema_is_first_schema_received
      [where ts = ?ts2 and st = ?st1 and sch = "Some ?B" and rw = "Some ?rB"]
  note b1 = t2 [THEN conjunct2, THEN conjunct2, THEN conjunct2, THEN conjunct2, THEN conjunct1,
      THEN mp, OF ne, unfolded m]
  note d1 = t2 [THEN conjunct2, THEN conjunct2, THEN conjunct2, THEN conjunct2, THEN conjunct2,
      THEN conjunct1, THEN mp, OF h2, unfolded h3 append_Cons append_Nil]
  have "case batchHandler ?A ?rA ?c0 of Inl e \<Rightarrow> False
        | Inr c' \<Rightarrow> (case batchHandler ?B ?rB c' of Inl e \<Rightarrow> False | Inr c'' \<Rightarrow> True)"
    by code_simp
  then obtain c' c'' where bh1: "batchHandler ?A ?rA ?c0 = Inr c'"
    and bh2: "batchHandler ?B ?rB c' = Inr c''"
    by (auto split: sum.splits)
  have z: "createCalls (calls (databaseService ?c0)) = []" "\<not> tableInitialized ?c0"
    by (simp_all add: createCalls_def)
  note e1 = session_schema_is_first_schema_received
      [where ctl = ?c0 and sch' = ?A and rw' = ?rA and c' = c',
       THEN conjunct2, THEN conjunct2, THEN conjunct2, THEN conjunct2, THEN conjunct2,
       THEN conjunct2, THEN mp, OF bh1]
  note e2 = session_schema_is_first_schema_received
      [where ctl = c' and sch' = ?B and rw' = ?rB and c' = c'',
       THEN conjunct2, THEN conjunct2, THEN conjunct2, THEN conjunct2, THEN conjunct2,
       THEN conjunct2, THEN mp, OF bh2]
  from e1 z have f1: "tableInitialized c'"
    "createCalls (calls (databaseService c')) = [createCallFor ?A]"
    by simp_all
  from e2 f1 have f2: "createCalls (calls (databaseService c'')) = [createCallFor ?A]"
    by simp
  from a1 a4 h1 b1 d1 f1 f2 show ?thesis
    by (simp only: bh1 bh2 sum.case simp_thms)
qed

end
